theory Spec2Isabelle
  imports Complex_Main
begin

section \<open>The Sophia optimizers of \<open>t5/utils/sophia.py\<close>\<close>

text \<open>
  The four optimizer classes \<open>SophiaG\<close>, \<open>SophiaG_RMS\<close>, \<open>SophiaG_OG\<close> and
  \<open>SophiaG_RMSD\<close> are embedded with explicit state passing. Scope of the model:
  \<^item> tensor entries are real numbers, so the arithmetic is exact (no rounding, no NaN,
    no infinity); a tensor is its shape, the flat list of its entries and whether it
    lives on a CUDA device. The lines whose result depends on an overflow are embedded
    a second time, on one float32 entry that may be an infinity or NaN;
  \<^item> parameters are real-valued (\<open>torch.is_complex\<close> is false), and \<open>closure\<close> is
    \<open>None\<close>;
  \<^item> \<open>self.state[p]\<close> is stored with the parameter \<open>p\<close>: an empty dictionary is
    \<open>None\<close>, a non-empty one has the keys \<open>step\<close> and \<open>exp_avg\<close>, and the keys
    \<open>hessian\<close> and \<open>rms\<close> may be absent;
  \<^item> a Python exception is the value \<open>Raised e s\<close>, where \<open>s\<close> is the state that the
    in-place mutations have reached when the exception leaves the call;
  \<^item> the hyperparameters \<open>lr\<close>, \<open>betas\<close>, \<open>rho\<close>, \<open>weight_decay\<close> are Python floats,
    as the signatures of the kernels say.
\<close>

subsection \<open>Tensors\<close>

datatype error =
    ValueError            \<comment> \<open>raised by the constructors\<close>
  | RuntimeError          \<comment> \<open>"does not support sparse gradients"\<close>
  | AssertionError        \<comment> \<open>the \<open>is_cuda\<close> assertion of the capturable branch\<close>
  | AttributeError        \<comment> \<open>\<open>.neg()\<close> or \<open>.is_cuda\<close> on a Python number\<close>
  | KeyError              \<comment> \<open>\<open>state["rms"]\<close> on a state without that key\<close>
  | NotImplementedError   \<comment> \<open>\<open>addcmul_\<close> of the library on a sparse operand\<close>

datatype 'a result = Ok 'a | Raised error 'a

fun result_state :: "'a result \<Rightarrow> 'a" where
  "result_state (Ok s) = s"
| "result_state (Raised e s) = s"

record tensor =
  shape :: "nat list"
  vals :: "real list"
  is_cuda :: bool

text \<open>\<open>torch.zeros_like(p, memory_format=torch.preserve_format)\<close>\<close>

definition zeros_like :: "tensor \<Rightarrow> tensor" where
  "zeros_like p = p\<lparr>vals := replicate (length (vals p)) 0\<rparr>"

text \<open>\<open>torch.zeros((1,), dtype=torch.float, device=d)\<close>\<close>

definition zeros1 :: "bool \<Rightarrow> tensor" where
  "zeros1 d = \<lparr>shape = [1], vals = [0], is_cuda = d\<rparr>"

text \<open>\<open>torch.tensor(x)\<close>: a zero-dimensional tensor on the CPU.\<close>

definition scalar_tensor :: "real \<Rightarrow> tensor" where
  "scalar_tensor x = \<lparr>shape = [], vals = [x], is_cuda = False\<rparr>"

text \<open>
  The in-place operations change the entries of their first operand and nothing else.
  The other operands have the shape of the first one (the library keeps
  \<open>p.grad.shape = p.shape\<close>, and the state buffers come from \<open>zeros_like\<close>).
\<close>

definition imul :: "tensor \<Rightarrow> real \<Rightarrow> tensor" where
  "imul t c = t\<lparr>vals := map (\<lambda>x. x * c) (vals t)\<rparr>"

definition iadd_scalar :: "tensor \<Rightarrow> real \<Rightarrow> tensor" where
  "iadd_scalar t c = t\<lparr>vals := map (\<lambda>x. x + c) (vals t)\<rparr>"

text \<open>\<open>t.add_(other, alpha=a)\<close>, in place\<close>

definition iadd :: "tensor \<Rightarrow> tensor \<Rightarrow> real \<Rightarrow> tensor" where
  "iadd t other a = t\<lparr>vals := map2 (\<lambda>x y. x + a * y) (vals t) (vals other)\<rparr>"

text \<open>\<open>t.sub_(other)\<close>, in place\<close>

definition isub :: "tensor \<Rightarrow> tensor \<Rightarrow> tensor" where
  "isub t other = t\<lparr>vals := map2 (\<lambda>x y. x - y) (vals t) (vals other)\<rparr>"

text \<open>\<open>t.addcmul_(t1, t2, value=v)\<close>, in place\<close>

definition iaddcmul :: "tensor \<Rightarrow> real list \<Rightarrow> real list \<Rightarrow> real \<Rightarrow> tensor" where
  "iaddcmul t t1 t2 v =
     t\<lparr>vals := map (\<lambda>(x, y, z). x + v * (y * z)) (zip (vals t) (zip t1 t2))\<rparr>"

text \<open>\<open>-t\<close>\<close>

definition neg :: "tensor \<Rightarrow> tensor" where
  "neg t = t\<lparr>vals := map uminus (vals t)\<rparr>"

text \<open>\<open>_rms(tensor) = tensor.norm(2) / (tensor.numel() ** 0.5)\<close>\<close>

definition norm2 :: "tensor \<Rightarrow> real" where
  "norm2 t = sqrt (sum_list (map (\<lambda>x. x * x) (vals t)))"

definition numel :: "tensor \<Rightarrow> nat" where
  "numel t = length (vals t)"

definition rms_norm :: "tensor \<Rightarrow> real" where
  "rms_norm t = norm2 t / sqrt (real (numel t))"

text \<open>
  \<open>(exp_avg.abs() / (rho * bs * hess + 1e-15)).clamp(None, upper)\<close>, entry by entry.
  Where the denominator is zero the library gives an infinity and HOL gives 0; the
  denominator is positive whenever \<open>rho\<close>, \<open>bs\<close> and the entries of \<open>hess\<close> are not
  negative.
\<close>

definition denominator :: "real \<Rightarrow> real \<Rightarrow> real \<Rightarrow> real" where
  "denominator rho bs h = rho * bs * h + 1 / 10 ^ 15"

definition ratio_entry :: "real \<Rightarrow> real \<Rightarrow> real \<Rightarrow> real \<Rightarrow> real \<Rightarrow> real" where
  "ratio_entry rho bs upper m h = min (\<bar>m\<bar> / denominator rho bs h) upper"

definition ratio_of :: "real \<Rightarrow> real \<Rightarrow> real \<Rightarrow> tensor \<Rightarrow> tensor \<Rightarrow> real list" where
  "ratio_of rho bs upper exp_avg hess =
     map2 (ratio_entry rho bs upper) (vals exp_avg) (vals hess)"

text \<open>\<open>exp_avg.sign()\<close>\<close>

definition sign :: "tensor \<Rightarrow> real list" where
  "sign t = map sgn (vals t)"

subsection \<open>Parameters, state and groups\<close>

record pstate =
  state_step :: tensor
  state_exp_avg :: tensor
  state_hessian :: "tensor option"
  state_rms :: "tensor option"

datatype grad = Dense tensor | Sparse tensor

record param =
  p_data :: tensor
  p_grad :: "grad option"
  p_state :: "pstate option"

record group =
  group_lr :: real
  group_betas :: "real \<times> real"
  group_rho :: real
  group_weight_decay :: real
  group_maximize :: bool
  group_capturable :: bool
  group_params :: "param list"

record optimizer =
  defaults_capturable :: bool
  param_groups :: "group list"

text \<open>
  The batch size \<open>bs\<close> of \<open>step\<close> is a Python number, or, once \<open>step\<close> has replaced
  it by \<open>torch.ones((1,), device=p.device) * bs\<close>, a one-entry tensor on a device.
\<close>

datatype batch = BsNum real | BsTensor real bool

fun bs_value :: "batch \<Rightarrow> real" where
  "bs_value (BsNum v) = v"
| "bs_value (BsTensor v d) = v"

fun ones_mul :: "bool \<Rightarrow> batch \<Rightarrow> batch" where
  "ones_mul d b = BsTensor (1 * bs_value b) d"

subsection \<open>Construction\<close>

text \<open>
  A hyperparameter that a constructor receives is a Python float: a number or NaN, and
  every comparison with NaN is false. Infinite hyperparameters are outside the model.
\<close>

datatype pyfloat = PyNum real | PyNan

fun py_le :: "pyfloat \<Rightarrow> pyfloat \<Rightarrow> bool" where
  "py_le (PyNum a) (PyNum b) = (a \<le> b)"
| "py_le a b = False"

fun py_lt :: "pyfloat \<Rightarrow> pyfloat \<Rightarrow> bool" where
  "py_lt (PyNum a) (PyNum b) = (a < b)"
| "py_lt a b = False"

text \<open>The five checks that open each of the four \<open>__init__\<close> methods.\<close>

definition check_config ::
  "pyfloat \<Rightarrow> pyfloat \<times> pyfloat \<Rightarrow> pyfloat \<Rightarrow> pyfloat \<Rightarrow> error option" where
  "check_config lr betas rho weight_decay =
     (if \<not> py_le (PyNum 0) lr then Some ValueError
      else if \<not> (py_le (PyNum 0) (fst betas) \<and> py_lt (fst betas) (PyNum 1))
        then Some ValueError
      else if \<not> (py_le (PyNum 0) (snd betas) \<and> py_lt (snd betas) (PyNum 1))
        then Some ValueError
      else if \<not> py_le (PyNum 0) rho then Some ValueError
      else if \<not> py_le (PyNum 0) weight_decay then Some ValueError
      else None)"

text \<open>
  The value of a hyperparameter that has passed the checks, where it is a number.
\<close>

fun number :: "pyfloat \<Rightarrow> real" where
  "number (PyNum x) = x"
| "number PyNan = 0"

text \<open>
  \<open>super().__init__(params, defaults)\<close> is the constructor of \<open>torch.optim.Optimizer\<close>,
  which is not part of the repository. \<open>params\<close> is a collection of parameters, of
  which it makes one group with the defaults as its options, or a collection of
  groups, each of which may give its own value for an option and takes the default
  for the others; on an empty collection it raises \<open>ValueError\<close>. The options of a
  group are not checked. (The checks that every element is a leaf tensor and that no
  parameter is in two groups are outside the model, where parameters are values.)
\<close>

record group_spec =
  spec_params :: "param list"
  spec_lr :: "real option"
  spec_betas :: "(real \<times> real) option"
  spec_rho :: "real option"
  spec_weight_decay :: "real option"
  spec_maximize :: "bool option"
  spec_capturable :: "bool option"

datatype params_arg = Params "param list" | Groups "group_spec list"

text \<open>The one group that is made of a collection of parameters.\<close>

definition make_optimizer ::
  "param list \<Rightarrow> real \<Rightarrow> real \<times> real \<Rightarrow> real \<Rightarrow> real \<Rightarrow> bool \<Rightarrow> bool \<Rightarrow> optimizer" where
  "make_optimizer ps lr betas rho weight_decay maximize capturable =
     \<lparr>defaults_capturable = capturable,
      param_groups = [\<lparr>group_lr = lr, group_betas = betas, group_rho = rho,
        group_weight_decay = weight_decay, group_maximize = maximize,
        group_capturable = capturable, group_params = ps\<rparr>]\<rparr>"

text \<open>\<open>add_param_group\<close>: \<open>param_group.setdefault(name, default)\<close> for every option.\<close>

definition add_param_group ::
  "real \<Rightarrow> real \<times> real \<Rightarrow> real \<Rightarrow> real \<Rightarrow> bool \<Rightarrow> bool \<Rightarrow> group_spec \<Rightarrow> group" where
  "add_param_group lr betas rho weight_decay maximize capturable sp =
     \<lparr>group_lr = (case spec_lr sp of None \<Rightarrow> lr | Some x \<Rightarrow> x),
      group_betas = (case spec_betas sp of None \<Rightarrow> betas | Some x \<Rightarrow> x),
      group_rho = (case spec_rho sp of None \<Rightarrow> rho | Some x \<Rightarrow> x),
      group_weight_decay = (case spec_weight_decay sp of None \<Rightarrow> weight_decay | Some x \<Rightarrow> x),
      group_maximize = (case spec_maximize sp of None \<Rightarrow> maximize | Some x \<Rightarrow> x),
      group_capturable = (case spec_capturable sp of None \<Rightarrow> capturable | Some x \<Rightarrow> x),
      group_params = spec_params sp\<rparr>"

definition constructed ::
  "params_arg \<Rightarrow> real \<Rightarrow> real \<times> real \<Rightarrow> real \<Rightarrow> real \<Rightarrow> bool \<Rightarrow> bool \<Rightarrow> optimizer" where
  "constructed params lr betas rho weight_decay maximize capturable =
     (case params of
        Params ps \<Rightarrow> make_optimizer ps lr betas rho weight_decay maximize capturable
      | Groups sps \<Rightarrow>
          \<lparr>defaults_capturable = capturable,
           param_groups =
             map (add_param_group lr betas rho weight_decay maximize capturable) sps\<rparr>)"

definition no_params :: "params_arg \<Rightarrow> bool" where
  "no_params params \<longleftrightarrow> params = Params [] \<or> params = Groups []"

definition Optimizer_init ::
  "params_arg \<Rightarrow> real \<Rightarrow> real \<times> real \<Rightarrow> real \<Rightarrow> real \<Rightarrow> bool \<Rightarrow> bool \<Rightarrow> error + optimizer" where
  "Optimizer_init params lr betas rho weight_decay maximize capturable =
     (if no_params params then Inl ValueError
      else Inr (constructed params lr betas rho weight_decay maximize capturable))"

text \<open>
  The four \<open>__init__\<close> methods: the five checks, then the constructor of the base
  class on the values, none of which is NaN after the checks.
\<close>

definition SophiaG_init ::
  "params_arg \<Rightarrow> pyfloat \<Rightarrow> pyfloat \<times> pyfloat \<Rightarrow> pyfloat \<Rightarrow> pyfloat \<Rightarrow> bool \<Rightarrow> bool \<Rightarrow>
   error + optimizer" where
  "SophiaG_init params lr betas rho weight_decay maximize capturable =
     (case check_config lr betas rho weight_decay of
        Some e \<Rightarrow> Inl e
      | None \<Rightarrow>
          Optimizer_init params (number lr) (number (fst betas), number (snd betas))
            (number rho) (number weight_decay) maximize capturable)"

definition SophiaG_RMS_init ::
  "params_arg \<Rightarrow> pyfloat \<Rightarrow> pyfloat \<times> pyfloat \<Rightarrow> pyfloat \<Rightarrow> pyfloat \<Rightarrow> bool \<Rightarrow> bool \<Rightarrow>
   error + optimizer" where
  "SophiaG_RMS_init params lr betas rho weight_decay maximize capturable =
     (case check_config lr betas rho weight_decay of
        Some e \<Rightarrow> Inl e
      | None \<Rightarrow>
          Optimizer_init params (number lr) (number (fst betas), number (snd betas))
            (number rho) (number weight_decay) maximize capturable)"

definition SophiaG_OG_init ::
  "params_arg \<Rightarrow> pyfloat \<Rightarrow> pyfloat \<times> pyfloat \<Rightarrow> pyfloat \<Rightarrow> pyfloat \<Rightarrow> bool \<Rightarrow> bool \<Rightarrow>
   error + optimizer" where
  "SophiaG_OG_init params lr betas rho weight_decay maximize capturable =
     (case check_config lr betas rho weight_decay of
        Some e \<Rightarrow> Inl e
      | None \<Rightarrow>
          Optimizer_init params (number lr) (number (fst betas), number (snd betas))
            (number rho) (number weight_decay) maximize capturable)"

definition SophiaG_RMSD_init ::
  "params_arg \<Rightarrow> pyfloat \<Rightarrow> pyfloat \<times> pyfloat \<Rightarrow> pyfloat \<Rightarrow> pyfloat \<Rightarrow> bool \<Rightarrow> bool \<Rightarrow>
   error + optimizer" where
  "SophiaG_RMSD_init params lr betas rho weight_decay maximize capturable =
     (case check_config lr betas rho weight_decay of
        Some e \<Rightarrow> Inl e
      | None \<Rightarrow>
          Optimizer_init params (number lr) (number (fst betas), number (snd betas))
            (number rho) (number weight_decay) maximize capturable)"

subsection \<open>Loops that an exception can leave\<close>

text \<open>
  \<open>for x in xs: body\<close> where the body mutates \<open>x\<close> in place and may raise: the entries
  after the one that raised are left as they were. \<open>for_each_st\<close> also threads a local
  variable of the enclosing function through the loop (\<open>bs\<close> in \<open>step\<close>).
\<close>

fun for_each :: "('a \<Rightarrow> 'a result) \<Rightarrow> 'a list \<Rightarrow> 'a list result" where
  "for_each f [] = Ok []"
| "for_each f (x # xs) =
     (case f x of
        Raised e x' \<Rightarrow> Raised e (x' # xs)
      | Ok x' \<Rightarrow> map_result (\<lambda>xs'. x' # xs') (for_each f xs))"

fun for_each_st :: "('s \<Rightarrow> 'a \<Rightarrow> ('a \<times> 's) result) \<Rightarrow> 's \<Rightarrow> 'a list \<Rightarrow> ('a list \<times> 's) result" where
  "for_each_st f s [] = Ok ([], s)"
| "for_each_st f s (x # xs) =
     (case f s x of
        Raised e (x', s') \<Rightarrow> Raised e (x' # xs, s')
      | Ok (x', s') \<Rightarrow> map_result (\<lambda>(xs', s''). (x' # xs', s'')) (for_each_st f s' xs))"

subsection \<open>State initialisation\<close>

text \<open>
  The block \<open>if len(state) == 0: ...\<close> of \<open>SophiaG\<close>, and the one shared by
  \<open>SophiaG_RMS\<close>, \<open>SophiaG_OG\<close> and \<open>SophiaG_RMSD\<close>, which also makes \<open>state["rms"]\<close>
  and always puts \<open>state["step"]\<close> on the device of \<open>p\<close>.
\<close>

definition init_state :: "bool \<Rightarrow> tensor \<Rightarrow> pstate" where
  "init_state defaults_cap p =
     \<lparr>state_step = (if defaults_cap then zeros1 (is_cuda p) else scalar_tensor 0),
      state_exp_avg = zeros_like p,
      state_hessian = Some (zeros_like p),
      state_rms = None\<rparr>"

definition init_state_rms :: "bool \<Rightarrow> tensor \<Rightarrow> pstate" where
  "init_state_rms defaults_cap p =
     \<lparr>state_step = zeros1 (is_cuda p),
      state_exp_avg = zeros_like p,
      state_hessian = Some (zeros_like p),
      state_rms = Some (zeros1 (is_cuda p))\<rparr>"

text \<open>\<open>if "hessian" not in state.keys(): state["hessian"] = torch.zeros_like(p)\<close>\<close>

definition backfill_hessian :: "tensor \<Rightarrow> pstate \<Rightarrow> pstate" where
  "backfill_hessian p st =
     (case state_hessian st of
        None \<Rightarrow> st\<lparr>state_hessian := Some (zeros_like p)\<rparr>
      | Some h \<Rightarrow> st)"

text \<open>The two blocks together; \<open>init\<close> is one of the two initialisations above.\<close>

definition ensure_state :: "(bool \<Rightarrow> tensor \<Rightarrow> pstate) \<Rightarrow> bool \<Rightarrow> param \<Rightarrow> pstate" where
  "ensure_state init defaults_cap p =
     backfill_hessian (p_data p)
       (case p_state p of None \<Rightarrow> init defaults_cap (p_data p) | Some st \<Rightarrow> st)"

text \<open>\<open>state["hessian"]\<close> after these blocks.\<close>

definition hessian_buffer :: "tensor \<Rightarrow> pstate \<Rightarrow> tensor" where
  "hessian_buffer p st = (case state_hessian st of None \<Rightarrow> zeros_like p | Some h \<Rightarrow> h)"

subsection \<open>\<open>update_hessian\<close>\<close>

text \<open>
  The body of the inner loop, the same text in the four classes up to the
  initialisation. The method does not look at \<open>p.grad.is_sparse\<close>: with a sparse
  gradient the state is initialised and \<open>mul_(beta2)\<close> has run when \<open>addcmul_\<close>, which
  the library does not have for sparse operands, raises.
\<close>

definition update_hessian_param ::
  "(bool \<Rightarrow> tensor \<Rightarrow> pstate) \<Rightarrow> bool \<Rightarrow> real \<Rightarrow> param \<Rightarrow> param result" where
  "update_hessian_param init defaults_cap beta2 p =
     (case p_grad p of
        None \<Rightarrow> Ok p
      | Some g \<Rightarrow>
          let st = ensure_state init defaults_cap p;
              h = imul (hessian_buffer (p_data p) st) beta2
          in (case g of
                Dense gt \<Rightarrow>
                  Ok (p\<lparr>p_state := Some (st\<lparr>state_hessian :=
                        Some (iaddcmul h (vals gt) (vals gt) (1 - beta2))\<rparr>)\<rparr>)
              | Sparse gt \<Rightarrow>
                  Raised NotImplementedError
                    (p\<lparr>p_state := Some (st\<lparr>state_hessian := Some h\<rparr>)\<rparr>)))"

definition update_hessian_group ::
  "(bool \<Rightarrow> tensor \<Rightarrow> pstate) \<Rightarrow> bool \<Rightarrow> group \<Rightarrow> group result" where
  "update_hessian_group init defaults_cap g =
     map_result (\<lambda>ps. g\<lparr>group_params := ps\<rparr>)
       (for_each (update_hessian_param init defaults_cap (snd (group_betas g)))
          (group_params g))"

definition update_hessian_with ::
  "(bool \<Rightarrow> tensor \<Rightarrow> pstate) \<Rightarrow> optimizer \<Rightarrow> optimizer result" where
  "update_hessian_with init opt =
     map_result (\<lambda>gs. opt\<lparr>param_groups := gs\<rparr>)
       (for_each (update_hessian_group init (defaults_capturable opt)) (param_groups opt))"

definition SophiaG_update_hessian :: "optimizer \<Rightarrow> optimizer result" where
  "SophiaG_update_hessian opt = update_hessian_with init_state opt"

definition SophiaG_RMS_update_hessian :: "optimizer \<Rightarrow> optimizer result" where
  "SophiaG_RMS_update_hessian opt = update_hessian_with init_state_rms opt"

definition SophiaG_OG_update_hessian :: "optimizer \<Rightarrow> optimizer result" where
  "SophiaG_OG_update_hessian opt = update_hessian_with init_state_rms opt"

definition SophiaG_RMSD_update_hessian :: "optimizer \<Rightarrow> optimizer result" where
  "SophiaG_RMSD_update_hessian opt = update_hessian_with init_state_rms opt"

subsection \<open>The single-tensor kernels\<close>

text \<open>\<open>assert param.is_cuda and step_t.is_cuda and bs.is_cuda\<close>\<close>

definition cuda_assert :: "tensor \<Rightarrow> tensor \<Rightarrow> batch \<Rightarrow> error option" where
  "cuda_assert param step_t bs =
     (if \<not> is_cuda param then Some AssertionError
      else if \<not> is_cuda step_t then Some AssertionError
      else (case bs of
              BsNum v \<Rightarrow> Some AttributeError
            | BsTensor v d \<Rightarrow> if d then None else Some AssertionError))"

text \<open>
  One iteration of the loop of \<open>_single_tensor_sophiag\<close>, on the \<open>i\<close>-th entries
  \<open>(param, grad, exp_avg, hess, step_t)\<close> of its argument lists; the result is what the
  in-place operations leave in \<open>(param, exp_avg, step_t)\<close>. In the capturable branch
  Python's \<open>max(1e-3, t)\<close> is the tensor \<open>t\<close> when \<open>t > 1e-3\<close> and the float \<open>1e-3\<close>
  otherwise, and then \<open>step_size\<close> is a float, which has no \<open>neg\<close>.
\<close>

definition single_tensor_sophiag_iter ::
  "real \<Rightarrow> real \<Rightarrow> real \<Rightarrow> real \<Rightarrow> real \<Rightarrow> bool \<Rightarrow> bool \<Rightarrow> batch \<Rightarrow>
   tensor \<times> tensor \<times> tensor \<times> tensor \<times> tensor \<Rightarrow> (tensor \<times> tensor \<times> tensor) result" where
  "single_tensor_sophiag_iter beta1 beta2 rho lr weight_decay maximize capturable bs =
     (\<lambda>(param, g, exp_avg, hess, step_t).
       let grad = (if \<not> maximize then g else neg g) in
       case (if capturable then cuda_assert param step_t bs else None) of
         Some e \<Rightarrow> Raised e (param, exp_avg, step_t)
       | None \<Rightarrow>
           let step_t = iadd_scalar step_t 1;
               param = imul param (1 - lr * weight_decay);
               exp_avg = iadd (imul exp_avg beta1) grad (1 - beta1)
           in if capturable then
                (if 1 / 1000 < rms_norm param then
                   let step_size = lr * max (1 / 1000) (rms_norm param);
                       step_size_neg = - step_size;
                       ratio = ratio_of rho (bs_value bs) 1 exp_avg hess
                   in Ok (iaddcmul param (sign exp_avg) ratio step_size_neg, exp_avg, step_t)
                 else Raised AttributeError (param, exp_avg, step_t))
              else
                (let step_size_neg = - lr * max (1 / 1000) (rms_norm param);
                     ratio = ratio_of rho (bs_value bs) 1 exp_avg hess
                 in Ok (iaddcmul param (sign exp_avg) ratio step_size_neg, exp_avg, step_t)))"

text \<open>
  One iteration of \<open>_single_tensor_sophiag_rms\<close>, on
  \<open>(param, grad, exp_avg, rms, hess, step_t)\<close>, leaving \<open>(param, exp_avg, rms, step_t)\<close>.
  In the capturable branch \<open>lr.neg()\<close> is called on the float \<open>lr\<close>.
\<close>

definition single_tensor_sophiag_rms_iter ::
  "real \<Rightarrow> real \<Rightarrow> real \<Rightarrow> real \<Rightarrow> real \<Rightarrow> bool \<Rightarrow> bool \<Rightarrow> batch \<Rightarrow>
   tensor \<times> tensor \<times> tensor \<times> tensor \<times> tensor \<times> tensor \<Rightarrow>
   (tensor \<times> tensor \<times> tensor \<times> tensor) result" where
  "single_tensor_sophiag_rms_iter beta1 beta2 rho lr weight_decay maximize capturable bs =
     (\<lambda>(param, g, exp_avg, rms, hess, step_t).
       let grad = (if \<not> maximize then g else neg g) in
       case (if capturable then cuda_assert param step_t bs else None) of
         Some e \<Rightarrow> Raised e (param, exp_avg, rms, step_t)
       | None \<Rightarrow>
           let step_t = iadd_scalar step_t 1;
               param = imul param (1 - lr * weight_decay);
               exp_avg = iadd (imul exp_avg beta1) grad (1 - beta1)
           in if capturable then Raised AttributeError (param, exp_avg, rms, step_t)
              else
                (let step_size_rel = max (1 / 100000) (rms_norm param);
                     step_size_neg = - lr;
                     rms = iadd_scalar (isub rms rms) step_size_rel;
                     ratio = ratio_of rho (bs_value bs) step_size_rel exp_avg hess
                 in Ok (iaddcmul param (sign exp_avg) ratio step_size_neg,
                        exp_avg, rms, step_t)))"

text \<open>One iteration of \<open>_single_tensor_sophiag_og\<close>: the clamp bound is 1.\<close>

definition single_tensor_sophiag_og_iter ::
  "real \<Rightarrow> real \<Rightarrow> real \<Rightarrow> real \<Rightarrow> real \<Rightarrow> bool \<Rightarrow> bool \<Rightarrow> batch \<Rightarrow>
   tensor \<times> tensor \<times> tensor \<times> tensor \<times> tensor \<times> tensor \<Rightarrow>
   (tensor \<times> tensor \<times> tensor \<times> tensor) result" where
  "single_tensor_sophiag_og_iter beta1 beta2 rho lr weight_decay maximize capturable bs =
     (\<lambda>(param, g, exp_avg, rms, hess, step_t).
       let grad = (if \<not> maximize then g else neg g) in
       case (if capturable then cuda_assert param step_t bs else None) of
         Some e \<Rightarrow> Raised e (param, exp_avg, rms, step_t)
       | None \<Rightarrow>
           let step_t = iadd_scalar step_t 1;
               param = imul param (1 - lr * weight_decay);
               exp_avg = iadd (imul exp_avg beta1) grad (1 - beta1)
           in if capturable then Raised AttributeError (param, exp_avg, rms, step_t)
              else
                (let step_size_rel = max (1 / 100000) (rms_norm param);
                     step_size_neg = - lr;
                     rms = iadd_scalar (isub rms rms) step_size_rel;
                     ratio = ratio_of rho (bs_value bs) 1 exp_avg hess
                 in Ok (iaddcmul param (sign exp_avg) ratio step_size_neg,
                        exp_avg, rms, step_t)))"

text \<open>
  One iteration of \<open>_single_tensor_sophiag_rmsd\<close>: \<open>exp_avg_1\<close> is computed out of
  place from the old \<open>exp_avg\<close>, and it, not \<open>exp_avg\<close>, enters the ratio and the sign.
\<close>

definition single_tensor_sophiag_rmsd_iter ::
  "real \<Rightarrow> real \<Rightarrow> real \<Rightarrow> real \<Rightarrow> real \<Rightarrow> bool \<Rightarrow> bool \<Rightarrow> batch \<Rightarrow>
   tensor \<times> tensor \<times> tensor \<times> tensor \<times> tensor \<times> tensor \<Rightarrow>
   (tensor \<times> tensor \<times> tensor \<times> tensor) result" where
  "single_tensor_sophiag_rmsd_iter beta1 beta2 rho lr weight_decay maximize capturable bs =
     (\<lambda>(param, g, exp_avg, rms, hess, step_t).
       let grad = (if \<not> maximize then g else neg g) in
       case (if capturable then cuda_assert param step_t bs else None) of
         Some e \<Rightarrow> Raised e (param, exp_avg, rms, step_t)
       | None \<Rightarrow>
           let step_t = iadd_scalar step_t 1;
               param = imul param (1 - lr * weight_decay);
               exp_avg_1 = iadd (imul exp_avg (95 / 100)) grad (5 / 100);
               exp_avg = iadd (imul exp_avg beta1) grad (1 - beta1)
           in if capturable then Raised AttributeError (param, exp_avg, rms, step_t)
              else
                (let step_size_rel = max (1 / 100000) (rms_norm param);
                     step_size_neg = - lr;
                     rms = iadd_scalar (isub rms rms) step_size_rel;
                     ratio = ratio_of rho (bs_value bs) step_size_rel exp_avg_1 hess
                 in Ok (iaddcmul param (sign exp_avg_1) ratio step_size_neg,
                        exp_avg, rms, step_t)))"

text \<open>
  The kernels loop over the parameters that have a gradient. Their argument lists hold
  the tensors of these parameters and of their states, so the model passes the entries
  of the group: an entry without a gradient is in none of the lists and is skipped,
  and one with a gradient has been through the collecting loop of \<open>step\<close>, which stops
  at a sparse gradient and leaves a state with \<open>hessian\<close> (and \<open>rms\<close>) present.
\<close>

definition on_param ::
  "(tensor \<times> tensor \<times> tensor \<times> tensor \<times> tensor \<Rightarrow> (tensor \<times> tensor \<times> tensor) result) \<Rightarrow>
   param \<Rightarrow> param result" where
  "on_param iter p =
     (case (p_grad p, p_state p) of
        (Some (Dense g), Some st) \<Rightarrow>
          (case state_hessian st of
             Some hess \<Rightarrow>
               map_result
                 (\<lambda>(param, exp_avg, step_t).
                    p\<lparr>p_data := param,
                      p_state := Some (st\<lparr>state_exp_avg := exp_avg, state_step := step_t\<rparr>)\<rparr>)
                 (iter (p_data p, g, state_exp_avg st, hess, state_step st))
           | None \<Rightarrow> Ok p)
      | _ \<Rightarrow> Ok p)"

definition on_param_rms ::
  "(tensor \<times> tensor \<times> tensor \<times> tensor \<times> tensor \<times> tensor \<Rightarrow>
      (tensor \<times> tensor \<times> tensor \<times> tensor) result) \<Rightarrow>
   param \<Rightarrow> param result" where
  "on_param_rms iter p =
     (case (p_grad p, p_state p) of
        (Some (Dense g), Some st) \<Rightarrow>
          (case (state_hessian st, state_rms st) of
             (Some hess, Some rms) \<Rightarrow>
               map_result
                 (\<lambda>(param, exp_avg, rms, step_t).
                    p\<lparr>p_data := param,
                      p_state := Some (st\<lparr>state_exp_avg := exp_avg, state_rms := Some rms,
                        state_step := step_t\<rparr>)\<rparr>)
                 (iter (p_data p, g, state_exp_avg st, rms, hess, state_step st))
           | _ \<Rightarrow> Ok p)
      | _ \<Rightarrow> Ok p)"

definition single_tensor_sophiag ::
  "param list \<Rightarrow> batch \<Rightarrow> real \<Rightarrow> real \<Rightarrow> real \<Rightarrow> real \<Rightarrow> real \<Rightarrow> bool \<Rightarrow> bool \<Rightarrow>
   param list result" where
  "single_tensor_sophiag ps bs beta1 beta2 rho lr weight_decay maximize capturable =
     for_each (on_param
       (single_tensor_sophiag_iter beta1 beta2 rho lr weight_decay maximize capturable bs)) ps"

definition single_tensor_sophiag_rms ::
  "param list \<Rightarrow> batch \<Rightarrow> real \<Rightarrow> real \<Rightarrow> real \<Rightarrow> real \<Rightarrow> real \<Rightarrow> bool \<Rightarrow> bool \<Rightarrow>
   param list result" where
  "single_tensor_sophiag_rms ps bs beta1 beta2 rho lr weight_decay maximize capturable =
     for_each (on_param_rms
       (single_tensor_sophiag_rms_iter beta1 beta2 rho lr weight_decay maximize capturable bs)) ps"

definition single_tensor_sophiag_og ::
  "param list \<Rightarrow> batch \<Rightarrow> real \<Rightarrow> real \<Rightarrow> real \<Rightarrow> real \<Rightarrow> real \<Rightarrow> bool \<Rightarrow> bool \<Rightarrow>
   param list result" where
  "single_tensor_sophiag_og ps bs beta1 beta2 rho lr weight_decay maximize capturable =
     for_each (on_param_rms
       (single_tensor_sophiag_og_iter beta1 beta2 rho lr weight_decay maximize capturable bs)) ps"

definition single_tensor_sophiag_rmsd ::
  "param list \<Rightarrow> batch \<Rightarrow> real \<Rightarrow> real \<Rightarrow> real \<Rightarrow> real \<Rightarrow> real \<Rightarrow> bool \<Rightarrow> bool \<Rightarrow>
   param list result" where
  "single_tensor_sophiag_rmsd ps bs beta1 beta2 rho lr weight_decay maximize capturable =
     for_each (on_param_rms
       (single_tensor_sophiag_rmsd_iter beta1 beta2 rho lr weight_decay maximize capturable bs)) ps"

subsection \<open>The dispatchers\<close>

text \<open>
  Each dispatcher checks that the step counters are tensors, which they are in this
  model, sets \<open>func\<close> and calls it. \<open>sophiag_rmsd\<close> sets
  \<open>func = _single_tensor_sophiag_rms\<close>.
\<close>

definition sophiag ::
  "param list \<Rightarrow> batch \<Rightarrow> real \<Rightarrow> real \<Rightarrow> real \<Rightarrow> real \<Rightarrow> real \<Rightarrow> bool \<Rightarrow> bool \<Rightarrow>
   param list result" where
  "sophiag ps bs beta1 beta2 rho lr weight_decay maximize capturable =
     (let func = single_tensor_sophiag
      in func ps bs beta1 beta2 rho lr weight_decay maximize capturable)"

definition sophiag_rms ::
  "param list \<Rightarrow> batch \<Rightarrow> real \<Rightarrow> real \<Rightarrow> real \<Rightarrow> real \<Rightarrow> real \<Rightarrow> bool \<Rightarrow> bool \<Rightarrow>
   param list result" where
  "sophiag_rms ps bs beta1 beta2 rho lr weight_decay maximize capturable =
     (let func = single_tensor_sophiag_rms
      in func ps bs beta1 beta2 rho lr weight_decay maximize capturable)"

definition sophiag_og ::
  "param list \<Rightarrow> batch \<Rightarrow> real \<Rightarrow> real \<Rightarrow> real \<Rightarrow> real \<Rightarrow> real \<Rightarrow> bool \<Rightarrow> bool \<Rightarrow>
   param list result" where
  "sophiag_og ps bs beta1 beta2 rho lr weight_decay maximize capturable =
     (let func = single_tensor_sophiag_og
      in func ps bs beta1 beta2 rho lr weight_decay maximize capturable)"

definition sophiag_rmsd ::
  "param list \<Rightarrow> batch \<Rightarrow> real \<Rightarrow> real \<Rightarrow> real \<Rightarrow> real \<Rightarrow> real \<Rightarrow> bool \<Rightarrow> bool \<Rightarrow>
   param list result" where
  "sophiag_rmsd ps bs beta1 beta2 rho lr weight_decay maximize capturable =
     (let func = single_tensor_sophiag_rms
      in func ps bs beta1 beta2 rho lr weight_decay maximize capturable)"

subsection \<open>\<open>step\<close>\<close>

text \<open>
  The body of the collecting loop of \<open>SophiaG.step\<close>, and the one of the three other
  classes, which also reads \<open>state["rms"]\<close>.
\<close>

definition collect_param :: "bool \<Rightarrow> batch \<Rightarrow> param \<Rightarrow> (param \<times> batch) result" where
  "collect_param defaults_cap bs p =
     (case p_grad p of
        None \<Rightarrow> Ok (p, bs)
      | Some (Sparse g) \<Rightarrow> Raised RuntimeError (p, bs)
      | Some (Dense g) \<Rightarrow>
          let st = ensure_state init_state defaults_cap p
          in Ok (p\<lparr>p_state := Some st\<rparr>,
                 if defaults_cap then ones_mul (is_cuda (p_data p)) bs else bs))"

definition collect_param_rms :: "bool \<Rightarrow> batch \<Rightarrow> param \<Rightarrow> (param \<times> batch) result" where
  "collect_param_rms defaults_cap bs p =
     (case p_grad p of
        None \<Rightarrow> Ok (p, bs)
      | Some (Sparse g) \<Rightarrow> Raised RuntimeError (p, bs)
      | Some (Dense g) \<Rightarrow>
          let st = ensure_state init_state_rms defaults_cap p
          in (case state_rms st of
                None \<Rightarrow> Raised KeyError (p\<lparr>p_state := Some st\<rparr>, bs)
              | Some rms \<Rightarrow>
                  Ok (p\<lparr>p_state := Some st\<rparr>,
                      if defaults_cap then ones_mul (is_cuda (p_data p)) bs else bs)))"

text \<open>
  One iteration of \<open>for group in self.param_groups\<close>: the collecting loop, then the
  dispatcher with the options of the group. \<open>bs\<close> is a local variable of \<open>step\<close> and
  keeps its value from one group to the next.
\<close>

definition step_group ::
  "(bool \<Rightarrow> batch \<Rightarrow> param \<Rightarrow> (param \<times> batch) result) \<Rightarrow>
   (param list \<Rightarrow> batch \<Rightarrow> real \<Rightarrow> real \<Rightarrow> real \<Rightarrow> real \<Rightarrow> real \<Rightarrow> bool \<Rightarrow> bool \<Rightarrow> param list result) \<Rightarrow>
   bool \<Rightarrow> batch \<Rightarrow> group \<Rightarrow> (group \<times> batch) result" where
  "step_group collect dispatch defaults_cap bs g =
     (case for_each_st (collect defaults_cap) bs (group_params g) of
        Raised e (ps, bs') \<Rightarrow> Raised e (g\<lparr>group_params := ps\<rparr>, bs')
      | Ok (ps, bs') \<Rightarrow>
          map_result (\<lambda>ps'. (g\<lparr>group_params := ps'\<rparr>, bs'))
            (dispatch ps bs' (fst (group_betas g)) (snd (group_betas g)) (group_rho g)
               (group_lr g) (group_weight_decay g) (group_maximize g) (group_capturable g)))"

definition step_with ::
  "(bool \<Rightarrow> batch \<Rightarrow> param \<Rightarrow> (param \<times> batch) result) \<Rightarrow>
   (param list \<Rightarrow> batch \<Rightarrow> real \<Rightarrow> real \<Rightarrow> real \<Rightarrow> real \<Rightarrow> real \<Rightarrow> bool \<Rightarrow> bool \<Rightarrow> param list result) \<Rightarrow>
   optimizer \<Rightarrow> real \<Rightarrow> optimizer result" where
  "step_with collect dispatch opt bs =
     map_result (\<lambda>(gs, bs'). opt\<lparr>param_groups := gs\<rparr>)
       (for_each_st (step_group collect dispatch (defaults_capturable opt)) (BsNum bs)
          (param_groups opt))"

definition SophiaG_step :: "optimizer \<Rightarrow> real \<Rightarrow> optimizer result" where
  "SophiaG_step opt bs = step_with collect_param sophiag opt bs"

definition SophiaG_RMS_step :: "optimizer \<Rightarrow> real \<Rightarrow> optimizer result" where
  "SophiaG_RMS_step opt bs = step_with collect_param_rms sophiag_rms opt bs"

definition SophiaG_OG_step :: "optimizer \<Rightarrow> real \<Rightarrow> optimizer result" where
  "SophiaG_OG_step opt bs = step_with collect_param_rms sophiag_og opt bs"

definition SophiaG_RMSD_step :: "optimizer \<Rightarrow> real \<Rightarrow> optimizer result" where
  "SophiaG_RMSD_step opt bs = step_with collect_param_rms sophiag_rmsd opt bs"

subsection \<open>The concrete scenario and the configuration ranges\<close>

definition tensor1 :: "real \<Rightarrow> tensor" where
  "tensor1 x = \<lparr>shape = [1], vals = [x], is_cuda = False\<rparr>"

text \<open>
  One parameter \<open>[w]\<close> with the constant gradient \<open>[0.1]\<close> and a given state, under
  \<open>lr=1e-4\<close>, \<open>betas=(0.965, 0.99)\<close>, \<open>rho=0.04\<close>, \<open>weight_decay=0.1\<close>,
  \<open>capturable=False\<close>.
\<close>

definition scenario_param :: param where
  "scenario_param =
     \<lparr>p_data = tensor1 1, p_grad = Some (Dense (tensor1 (1 / 10))), p_state = None\<rparr>"

definition scenario :: "real \<Rightarrow> pstate option \<Rightarrow> optimizer" where
  "scenario w st =
     make_optimizer [scenario_param\<lparr>p_data := tensor1 w, p_state := st\<rparr>]
       (1 / 10000) (965 / 1000, 99 / 100) (4 / 100) (1 / 10) False False"

definition scenario_state :: "real \<Rightarrow> real \<Rightarrow> real \<Rightarrow> pstate" where
  "scenario_state t m h =
     \<lparr>state_step = scalar_tensor t, state_exp_avg = tensor1 m,
      state_hessian = Some (tensor1 h), state_rms = None\<rparr>"

text \<open>
  The configurations that the specification calls invalid: \<open>lr < 0\<close>, or a beta
  outside \<open>[0, 1)\<close>, or \<open>rho < 0\<close>, or \<open>weight_decay < 0\<close>. The defaults of \<open>SophiaG\<close>.
\<close>

definition in_unit :: "pyfloat \<Rightarrow> bool" where
  "in_unit b \<longleftrightarrow> py_le (PyNum 0) b \<and> py_lt b (PyNum 1)"

definition invalid_config ::
  "pyfloat \<Rightarrow> pyfloat \<times> pyfloat \<Rightarrow> pyfloat \<Rightarrow> pyfloat \<Rightarrow> bool" where
  "invalid_config lr betas rho weight_decay \<longleftrightarrow>
     py_lt lr (PyNum 0) \<or> \<not> in_unit (fst betas) \<or> \<not> in_unit (snd betas) \<or>
     py_lt rho (PyNum 0) \<or> py_lt weight_decay (PyNum 0)"

definition default_betas :: "pyfloat \<times> pyfloat" where
  "default_betas = (PyNum (965 / 1000), PyNum (99 / 100))"

text \<open>A state of the three classes that keep \<open>state["rms"]\<close>.\<close>

definition rms_state :: "real \<Rightarrow> real \<Rightarrow> real \<Rightarrow> real \<Rightarrow> pstate" where
  "rms_state t m h r =
     \<lparr>state_step = tensor1 t, state_exp_avg = tensor1 m,
      state_hessian = Some (tensor1 h), state_rms = Some (tensor1 r)\<rparr>"

text \<open>
  One parameter \<open>[w]\<close> with the gradient \<open>[1]\<close> under the defaults of \<open>SophiaG_RMSD\<close>,
  \<open>betas=(0.99, 0.99)\<close>.
\<close>

definition rmsd_scenario :: "real \<Rightarrow> pstate option \<Rightarrow> optimizer" where
  "rmsd_scenario w st =
     make_optimizer [\<lparr>p_data = tensor1 w, p_grad = Some (Dense (tensor1 1)), p_state = st\<rparr>]
       (1 / 10000) (99 / 100, 99 / 100) (4 / 100) (1 / 10) False False"

text \<open>One parameter \<open>[1]\<close> whose gradient is sparse.\<close>

definition sparse_scenario :: "pstate option \<Rightarrow> optimizer" where
  "sparse_scenario st =
     make_optimizer
       [\<lparr>p_data = tensor1 1, p_grad = Some (Sparse (tensor1 (1 / 10))), p_state = st\<rparr>]
       (1 / 10000) (965 / 1000, 99 / 100) (4 / 100) (1 / 10) False False"

text \<open>One parameter \<open>[w]\<close> with the gradient \<open>[1e-15]\<close>, under the defaults of \<open>SophiaG\<close>.\<close>

definition tiny_scenario :: "real \<Rightarrow> pstate option \<Rightarrow> optimizer" where
  "tiny_scenario w st =
     make_optimizer
       [\<lparr>p_data = tensor1 w, p_grad = Some (Dense (tensor1 (1 / 10 ^ 15))), p_state = st\<rparr>]
       (1 / 10000) (965 / 1000, 99 / 100) (4 / 100) (1 / 10) False False"

subsection \<open>Sequences of calls\<close>

datatype variant = Base | RMS | OG | RMSD

fun init_of ::
  "variant \<Rightarrow> params_arg \<Rightarrow> pyfloat \<Rightarrow> pyfloat \<times> pyfloat \<Rightarrow> pyfloat \<Rightarrow> pyfloat \<Rightarrow>
   bool \<Rightarrow> bool \<Rightarrow> error + optimizer" where
  "init_of Base = SophiaG_init"
| "init_of RMS = SophiaG_RMS_init"
| "init_of OG = SophiaG_OG_init"
| "init_of RMSD = SophiaG_RMSD_init"

fun step_of :: "variant \<Rightarrow> optimizer \<Rightarrow> real \<Rightarrow> optimizer result" where
  "step_of Base = SophiaG_step"
| "step_of RMS = SophiaG_RMS_step"
| "step_of OG = SophiaG_OG_step"
| "step_of RMSD = SophiaG_RMSD_step"

fun update_hessian_of :: "variant \<Rightarrow> optimizer \<Rightarrow> optimizer result" where
  "update_hessian_of Base = SophiaG_update_hessian"
| "update_hessian_of RMS = SophiaG_RMS_update_hessian"
| "update_hessian_of OG = SophiaG_OG_update_hessian"
| "update_hessian_of RMSD = SophiaG_RMSD_update_hessian"

text \<open>
  What the training loop does with an optimizer: it assigns gradients (one list per
  group, one entry per parameter, \<open>None\<close> for no gradient), calls \<open>step\<close> with a batch
  size, or calls \<open>update_hessian\<close>. A call that raises leaves the state it had reached,
  and the caller may go on from there.
\<close>

datatype call = Backward "grad option list list" | Step real | Update_hessian

fun assign_grads :: "grad option list \<Rightarrow> param list \<Rightarrow> param list" where
  "assign_grads (g # gs) (p # ps) = p\<lparr>p_grad := g\<rparr> # assign_grads gs ps"
| "assign_grads gs ps = ps"

fun assign_group_grads :: "grad option list list \<Rightarrow> group list \<Rightarrow> group list" where
  "assign_group_grads (gs # gss) (g # grps) =
     g\<lparr>group_params := assign_grads gs (group_params g)\<rparr> # assign_group_grads gss grps"
| "assign_group_grads gss grps = grps"

definition backward :: "grad option list list \<Rightarrow> optimizer \<Rightarrow> optimizer" where
  "backward gss opt = opt\<lparr>param_groups := assign_group_grads gss (param_groups opt)\<rparr>"

fun exec :: "variant \<Rightarrow> optimizer \<Rightarrow> call \<Rightarrow> optimizer" where
  "exec v opt (Backward gss) = backward gss opt"
| "exec v opt (Step bs) = result_state (step_of v opt bs)"
| "exec v opt Update_hessian = result_state (update_hessian_of v opt)"

definition run :: "variant \<Rightarrow> optimizer \<Rightarrow> call list \<Rightarrow> optimizer" where
  "run v opt calls = foldl (exec v) opt calls"

subsection \<open>Invariants\<close>

definition all_params :: "(param \<Rightarrow> bool) \<Rightarrow> optimizer \<Rightarrow> bool" where
  "all_params P opt = list_all (\<lambda>g. list_all P (group_params g)) (param_groups opt)"

text \<open>
  The largest absolute value of a gradient entry whose square is a float32, with room
  to spare, and that square as the bound of the hessian entries.
\<close>

definition grad_max :: real where
  "grad_max = 2 ^ 63"

definition hessian_max :: real where
  "hessian_max = 2 ^ 126"

text \<open>Every entry of a dense gradient is at most \<open>grad_max\<close> in absolute value.\<close>

definition grad_in_range :: "grad option \<Rightarrow> bool" where
  "grad_in_range gr =
     (case gr of Some (Dense g) \<Rightarrow> list_all (\<lambda>x. \<bar>x\<bar> \<le> grad_max) (vals g) | _ \<Rightarrow> True)"

text \<open>
  Every entry of the hessian buffer of a parameter, if it has one, is at least 0 and
  at most \<open>hessian_max\<close>.
\<close>

definition hessian_in_range :: "param \<Rightarrow> bool" where
  "hessian_in_range p =
     (case p_state p of
        None \<Rightarrow> True
      | Some st \<Rightarrow>
          (case state_hessian st of
             None \<Rightarrow> True
           | Some h \<Rightarrow> list_all (\<lambda>x. 0 \<le> x \<and> x \<le> hessian_max) (vals h)))"

definition in_range :: "param \<Rightarrow> bool" where
  "in_range p \<longleftrightarrow> hessian_in_range p \<and> grad_in_range (p_grad p)"

text \<open>The gradients that the call assigns, if it assigns any, are in that range.\<close>

definition call_in_range :: "call \<Rightarrow> bool" where
  "call_in_range c =
     (case c of Backward gss \<Rightarrow> list_all (list_all grad_in_range) gss | _ \<Rightarrow> True)"

text \<open>\<open>beta2\<close> of every group is in \<open>[0, 1)\<close>.\<close>

definition betas_valid :: "optimizer \<Rightarrow> bool" where
  "betas_valid opt =
     list_all (\<lambda>g. 0 \<le> snd (group_betas g) \<and> snd (group_betas g) < 1) (param_groups opt)"

definition range_inv :: "optimizer \<Rightarrow> bool" where
  "range_inv opt =
     list_all (\<lambda>g. (0 \<le> snd (group_betas g) \<and> snd (group_betas g) < 1) \<and>
                   list_all in_range (group_params g)) (param_groups opt)"

text \<open>
  A group that gives its own \<open>betas=(0.965, 1.5)\<close>, the optimizer that \<open>SophiaG\<close>
  makes of it under the defaults, and a sequence of calls.
\<close>

definition override_spec :: group_spec where
  "override_spec =
     \<lparr>spec_params = [scenario_param], spec_lr = None,
      spec_betas = Some (965 / 1000, 3 / 2), spec_rho = None, spec_weight_decay = None,
      spec_maximize = None, spec_capturable = None\<rparr>"

definition override_scenario :: "pstate option \<Rightarrow> optimizer" where
  "override_scenario st =
     \<lparr>defaults_capturable = False,
      param_groups = [\<lparr>group_lr = 1 / 10000, group_betas = (965 / 1000, 3 / 2),
        group_rho = 4 / 100, group_weight_decay = 1 / 10, group_maximize = False,
        group_capturable = False, group_params = [scenario_param\<lparr>p_state := st\<rparr>]\<rparr>]\<rparr>"

definition scenario_calls :: "call list" where
  "scenario_calls =
     [Update_hessian, Step 5120, Backward [[Some (Dense (tensor1 (1 / 5)))]], Update_hessian]"

text \<open>No gradient of the parameter is sparse.\<close>

definition no_sparse :: "param \<Rightarrow> bool" where
  "no_sparse p = (case p_grad p of Some (Sparse g) \<Rightarrow> False | _ \<Rightarrow> True)"

subsection \<open>The hessian update as the specification words it\<close>

text \<open>\<open>hessian = beta2 * hessian + (1 - beta2) * gradient\<^sup>2\<close>, entry by entry.\<close>

definition hessian_ema :: "real \<Rightarrow> tensor \<Rightarrow> tensor \<Rightarrow> tensor" where
  "hessian_ema beta2 h g =
     h\<lparr>vals := map2 (\<lambda>x y. beta2 * x + (1 - beta2) * y\<^sup>2) (vals h) (vals g)\<rparr>"

text \<open>
  \<open>p'\<close> is \<open>p\<close> with this update of its hessian buffer and no other change, when
  \<open>p\<close> has a dense gradient and a state; a state without the key \<open>hessian\<close> counts
  with the zero buffer that the method puts there.
\<close>

definition hessian_updated :: "real \<Rightarrow> param \<Rightarrow> param \<Rightarrow> bool" where
  "hessian_updated beta2 p p' =
     (case (p_grad p, p_state p) of
        (Some (Dense g), Some st) \<Rightarrow>
          p' = p\<lparr>p_state := Some (st\<lparr>state_hessian :=
                  Some (hessian_ema beta2 (hessian_buffer (p_data p) st) g)\<rparr>)\<rparr>
      | _ \<Rightarrow> True)"

subsection \<open>Shapes\<close>

text \<open>Two tensors have the same shape, and as many entries.\<close>

definition same_shape :: "tensor \<Rightarrow> tensor \<Rightarrow> bool" where
  "same_shape t u \<longleftrightarrow> shape t = shape u \<and> length (vals t) = length (vals u)"

definition zero_filled :: "tensor \<Rightarrow> bool" where
  "zero_filled t \<longleftrightarrow> list_all (\<lambda>x. x = 0) (vals t)"

text \<open>The shape \<open>(1,)\<close>.\<close>

definition one_entry :: "tensor \<Rightarrow> bool" where
  "one_entry t \<longleftrightarrow> shape t = [1] \<and> length (vals t) = 1"

text \<open>The library keeps \<open>p.grad.shape = p.shape\<close>.\<close>

definition grad_ok :: "param \<Rightarrow> bool" where
  "grad_ok p = (case p_grad p of Some (Dense g) \<Rightarrow> same_shape g (p_data p) | _ \<Rightarrow> True)"

text \<open>
  The buffers of the state of a parameter, if it has one: \<open>exp_avg\<close> and \<open>hessian\<close>
  have the shape of the parameter, and \<open>rms\<close> has the shape \<open>(1,)\<close>.
\<close>

definition buffers_ok :: "param \<Rightarrow> bool" where
  "buffers_ok p =
     (case p_state p of
        None \<Rightarrow> True
      | Some st \<Rightarrow>
          same_shape (state_exp_avg st) (p_data p) \<and>
          (case state_hessian st of None \<Rightarrow> True | Some h \<Rightarrow> same_shape h (p_data p)) \<and>
          (case state_rms st of None \<Rightarrow> True | Some r \<Rightarrow> one_entry r))"

definition shapes_ok :: "param \<Rightarrow> bool" where
  "shapes_ok p \<longleftrightarrow> buffers_ok p \<and> grad_ok p"

text \<open>A parameter with two entries, and its gradient, under the defaults.\<close>

definition two_entries :: tensor where
  "two_entries = \<lparr>shape = [2], vals = [1, 2], is_cuda = False\<rparr>"

definition two_scenario :: "pstate option \<Rightarrow> optimizer" where
  "two_scenario st =
     make_optimizer [\<lparr>p_data = two_entries, p_grad = Some (Dense two_entries), p_state = st\<rparr>]
       (1 / 10000) (965 / 1000, 99 / 100) (4 / 100) (1 / 10) False False"

subsection \<open>A step as the specification words it\<close>

text \<open>
  The state that \<open>step\<close> of a class gives to a parameter that has none: \<open>SophiaG\<close>
  has no \<open>rms\<close>, the three other classes do.
\<close>

definition variant_init :: "variant \<Rightarrow> bool \<Rightarrow> tensor \<Rightarrow> pstate" where
  "variant_init v =
     (case v of Base \<Rightarrow> init_state | RMS \<Rightarrow> init_state_rms | OG \<Rightarrow> init_state_rms
      | RMSD \<Rightarrow> init_state_rms)"

text \<open>
  The parameter after the weight decay, \<open>parameter * (1 - lr * weight_decay)\<close>, and
  the momentum after its update, \<open>beta1 * momentum + (1 - beta1) * gradient\<close>, with the
  gradient negated under \<open>maximize\<close>.
\<close>

definition decayed :: "group \<Rightarrow> param \<Rightarrow> tensor" where
  "decayed g p = imul (p_data p) (1 - group_lr g * group_weight_decay g)"

definition momentum :: "group \<Rightarrow> tensor \<Rightarrow> pstate \<Rightarrow> tensor" where
  "momentum g gt st =
     iadd (imul (state_exp_avg st) (fst (group_betas g)))
       (if group_maximize g then neg gt else gt) (1 - fst (group_betas g))"

text \<open>\<open>max(1e-5, rms(parameter))\<close>\<close>

definition step_size_rel :: "tensor \<Rightarrow> real" where
  "step_size_rel t = max (1 / 100000) (rms_norm t)"

text \<open>
  The scalar that multiplies \<open>sign(momentum) * ratio\<close> in the update of the parameter
  \<open>t\<close> (after its decay), and the upper bound of the clamp of the ratio.
\<close>

definition coefficient :: "variant \<Rightarrow> group \<Rightarrow> tensor \<Rightarrow> real" where
  "coefficient v g t =
     (case v of
        Base \<Rightarrow> group_lr g * max (1 / 1000) (rms_norm t)
      | RMS \<Rightarrow> group_lr g
      | OG \<Rightarrow> group_lr g
      | RMSD \<Rightarrow> group_lr g)"

definition clamp_bound :: "variant \<Rightarrow> tensor \<Rightarrow> real" where
  "clamp_bound v t =
     (case v of Base \<Rightarrow> 1 | RMS \<Rightarrow> step_size_rel t | OG \<Rightarrow> 1 | RMSD \<Rightarrow> step_size_rel t)"

text \<open>
  The tensor \<open>t\<close> with every entry replaced by \<open>x\<close>, and the \<open>rms\<close> buffer after a
  step: the three classes that have one fill it with \<open>max(1e-5, rms(parameter))\<close>.
\<close>

definition filled :: "tensor \<Rightarrow> real \<Rightarrow> tensor" where
  "filled t x = t\<lparr>vals := replicate (length (vals t)) x\<rparr>"

definition rms_after :: "variant \<Rightarrow> tensor \<Rightarrow> tensor option \<Rightarrow> tensor option" where
  "rms_after v t r =
     (case v of
        Base \<Rightarrow> r
      | RMS \<Rightarrow> map_option (\<lambda>r. filled r (step_size_rel t)) r
      | OG \<Rightarrow> map_option (\<lambda>r. filled r (step_size_rel t)) r
      | RMSD \<Rightarrow> map_option (\<lambda>r. filled r (step_size_rel t)) r)"

text \<open>
  \<open>p'\<close> is what a step makes of \<open>p\<close> in the group \<open>g\<close>: nothing without a gradient;
  with a dense one, the state is created if need be, the parameter is decayed, the
  momentum is updated, and \<open>coefficient * sign(momentum) * ratio\<close> is subtracted from
  the decayed parameter, where the ratio is
  \<open>clamp(|momentum| / (rho * bs * hessian + 1e-15), upper)\<close>; the step counter grows
  by one. A step that returns has met no sparse gradient.
\<close>

definition stepped :: "variant \<Rightarrow> bool \<Rightarrow> real \<Rightarrow> group \<Rightarrow> param \<Rightarrow> param \<Rightarrow> bool" where
  "stepped v c bs g p p' =
     (case p_grad p of
        None \<Rightarrow> p' = p
      | Some (Sparse gt) \<Rightarrow> False
      | Some (Dense gt) \<Rightarrow>
          (let st = ensure_state (variant_init v) c p;
               d = decayed g p;
               m = momentum g gt st;
               ratio = ratio_of (group_rho g) bs (clamp_bound v d) m
                         (hessian_buffer (p_data p) st)
           in p' = p\<lparr>p_data := iaddcmul d (sign m) ratio (- coefficient v g d),
                     p_state := Some (st\<lparr>state_exp_avg := m,
                       state_step := iadd_scalar (state_step st) 1,
                       state_rms := rms_after v d (state_rms st)\<rparr>)\<rparr>))"

text \<open>The same for every parameter of every group; nothing else of the optimizer changes.\<close>

definition stepped_opt :: "variant \<Rightarrow> real \<Rightarrow> optimizer \<Rightarrow> optimizer \<Rightarrow> bool" where
  "stepped_opt v bs opt opt' \<longleftrightarrow>
     opt' = opt\<lparr>param_groups := param_groups opt'\<rparr> \<and>
     list_all2 (\<lambda>g g'. g' = g\<lparr>group_params := group_params g'\<rparr> \<and>
         list_all2 (stepped v (defaults_capturable opt) bs g) (group_params g) (group_params g'))
       (param_groups opt) (param_groups opt')"

text \<open>
  A state of the three classes with \<open>rms\<close> has that key; \<open>step\<close> can run when no
  group is capturable, no gradient is sparse and the states have their keys.
\<close>

definition rms_present :: "variant \<Rightarrow> param \<Rightarrow> bool" where
  "rms_present v p \<longleftrightarrow>
     v = Base \<or> (case p_state p of None \<Rightarrow> True | Some st \<Rightarrow> state_rms st \<noteq> None)"

definition step_ready :: "variant \<Rightarrow> optimizer \<Rightarrow> bool" where
  "step_ready v opt =
     list_all (\<lambda>g. \<not> group_capturable g \<and>
                   list_all (\<lambda>p. no_sparse p \<and> rms_present v p) (group_params g))
       (param_groups opt)"

text \<open>
  The ratio over a zero hessian entry, \<open>min(|x| / 1e-15, upper)\<close>: the bound when
  \<open>|x|\<close> is at least \<open>upper * 1e-15\<close>, and \<open>|x| * 1e15\<close> below that.
\<close>

definition ratio_over_zero :: "real \<Rightarrow> real \<Rightarrow> real" where
  "ratio_over_zero upper x = (if upper / 10 ^ 15 \<le> \<bar>x\<bar> then upper else \<bar>x\<bar> * 10 ^ 15)"

text \<open>
  What a step makes of a parameter with a dense gradient whose hessian buffer is all
  zeros: every denominator is \<open>1e-15\<close>, every entry of the ratio is as above, and the
  parameter is updated with that ratio.
\<close>

definition zero_hessian_stepped ::
  "variant \<Rightarrow> bool \<Rightarrow> real \<Rightarrow> group \<Rightarrow> param \<Rightarrow> param \<Rightarrow> bool" where
  "zero_hessian_stepped v c bs g p p' =
     (case p_grad p of
        Some (Dense gt) \<Rightarrow>
          (let st = ensure_state (variant_init v) c p;
               d = decayed g p;
               m = momentum g gt st;
               h = hessian_buffer (p_data p) st
           in list_all (\<lambda>x. x = 0) (vals h) \<and> length (vals h) = length (vals m) \<longrightarrow>
              list_all (\<lambda>x. denominator (group_rho g) bs x = 1 / 10 ^ 15) (vals h) \<and>
              ratio_of (group_rho g) bs (clamp_bound v d) m h =
                map (ratio_over_zero (clamp_bound v d)) (vals m) \<and>
              p_data p' = iaddcmul d (sign m) (map (ratio_over_zero (clamp_bound v d)) (vals m))
                            (- coefficient v g d))
      | _ \<Rightarrow> True)"

subsection \<open>Float32 entries with infinities and NaN\<close>

text \<open>
  The tensors above hold real numbers. Where a statement depends on what float32
  arithmetic makes of a result that is too large, or of 0 times an infinity, the line
  of the source in question is embedded a second time, on one entry, over values that
  are a real number, an infinity or NaN. A finite result is kept exact (no rounding,
  no underflow, no signed zero); a result beyond the largest float32 is an infinity.
\<close>

datatype f32 = Fin real | PInf | NInf | NaN

definition fmax :: real where
  "fmax = (2 - 1 / 2 ^ 23) * 2 ^ 127"

definition to_f32 :: "real \<Rightarrow> f32" where
  "to_f32 x = (if fmax < x then PInf else if x < - fmax then NInf else Fin x)"

fun f_mul :: "f32 \<Rightarrow> f32 \<Rightarrow> f32" where
  "f_mul NaN y = NaN"
| "f_mul x NaN = NaN"
| "f_mul (Fin a) (Fin b) = to_f32 (a * b)"
| "f_mul PInf (Fin b) = (if b = 0 then NaN else if 0 < b then PInf else NInf)"
| "f_mul NInf (Fin b) = (if b = 0 then NaN else if 0 < b then NInf else PInf)"
| "f_mul (Fin a) PInf = (if a = 0 then NaN else if 0 < a then PInf else NInf)"
| "f_mul (Fin a) NInf = (if a = 0 then NaN else if 0 < a then NInf else PInf)"
| "f_mul PInf PInf = PInf"
| "f_mul PInf NInf = NInf"
| "f_mul NInf PInf = NInf"
| "f_mul NInf NInf = PInf"

fun f_add :: "f32 \<Rightarrow> f32 \<Rightarrow> f32" where
  "f_add NaN y = NaN"
| "f_add x NaN = NaN"
| "f_add (Fin a) (Fin b) = to_f32 (a + b)"
| "f_add PInf NInf = NaN"
| "f_add NInf PInf = NaN"
| "f_add PInf y = PInf"
| "f_add NInf y = NInf"
| "f_add x PInf = PInf"
| "f_add x NInf = NInf"

fun f_div :: "f32 \<Rightarrow> f32 \<Rightarrow> f32" where
  "f_div NaN y = NaN"
| "f_div x NaN = NaN"
| "f_div (Fin a) (Fin b) =
     (if b = 0 then (if a = 0 then NaN else if 0 < a then PInf else NInf)
      else to_f32 (a / b))"
| "f_div (Fin a) y = Fin 0"
| "f_div PInf (Fin b) = (if 0 \<le> b then PInf else NInf)"
| "f_div NInf (Fin b) = (if 0 \<le> b then NInf else PInf)"
| "f_div x y = NaN"

fun f_abs :: "f32 \<Rightarrow> f32" where
  "f_abs (Fin a) = Fin \<bar>a\<bar>"
| "f_abs PInf = PInf"
| "f_abs NInf = PInf"
| "f_abs NaN = NaN"

fun f_sign :: "f32 \<Rightarrow> f32" where
  "f_sign (Fin a) = Fin (sgn a)"
| "f_sign PInf = Fin 1"
| "f_sign NInf = Fin (- 1)"
| "f_sign NaN = NaN"

text \<open>\<open>clamp(None, y)\<close>\<close>

fun f_min :: "f32 \<Rightarrow> f32 \<Rightarrow> f32" where
  "f_min NaN y = NaN"
| "f_min x NaN = NaN"
| "f_min (Fin a) (Fin b) = Fin (min a b)"
| "f_min NInf y = NInf"
| "f_min x NInf = NInf"
| "f_min PInf y = y"
| "f_min x PInf = x"

text \<open>
  \<open>state["hessian"].mul_(beta2).addcmul_(p.grad, p.grad, value=1 - beta2)\<close> on one
  entry \<open>h\<close> of the buffer and the entry \<open>g\<close> of the gradient.
\<close>

definition hessian_entry_f32 :: "real \<Rightarrow> f32 \<Rightarrow> f32 \<Rightarrow> f32" where
  "hessian_entry_f32 beta2 h g =
     f_add (f_mul h (to_f32 beta2)) (f_mul (f_mul (to_f32 (1 - beta2)) g) g)"

text \<open>
  \<open>(exp_avg.abs() / (rho * bs * hess + 1e-15)).clamp(None, upper)\<close> on one entry, and
  \<open>param.addcmul_(exp_avg.sign(), ratio, value=value)\<close> on one entry.
\<close>

definition ratio_entry_f32 :: "real \<Rightarrow> real \<Rightarrow> real \<Rightarrow> f32 \<Rightarrow> f32 \<Rightarrow> f32" where
  "ratio_entry_f32 rho bs upper m h =
     f_min (f_div (f_abs m) (f_add (f_mul (to_f32 (rho * bs)) h) (to_f32 (1 / 10 ^ 15))))
       (to_f32 upper)"

definition update_entry_f32 :: "real \<Rightarrow> f32 \<Rightarrow> f32 \<Rightarrow> f32 \<Rightarrow> f32" where
  "update_entry_f32 value p m r = f_add p (f_mul (f_mul (to_f32 value) (f_sign m)) r)"

section \<open>Properties\<close>

subsection \<open>Evaluation\<close>

lemma rms_norm_single: "rms_norm \<lparr>shape = s, vals = [x], is_cuda = c\<rparr> = \<bar>x\<bar>"
  by (simp add: rms_norm_def norm2_def numel_def)

lemmas tensor_defs = zeros_like_def scalar_tensor_def zeros1_def imul_def iaddcmul_def
  iadd_def iadd_scalar_def isub_def neg_def sign_def tensor1_def

lemmas ratio_defs = ratio_of_def ratio_entry_def denominator_def

lemmas state_defs = ensure_state_def init_state_def init_state_rms_def backfill_hessian_def
  hessian_buffer_def

lemmas update_hessian_defs = update_hessian_with_def update_hessian_group_def
  update_hessian_param_def

lemmas step_defs = step_with_def step_group_def collect_param_def collect_param_rms_def
  on_param_def on_param_rms_def

subsection \<open>The concrete scenario\<close>

text \<open>
  C1, as amended. From the fresh state, \<open>update_hessian\<close> leaves the hessian \<open>[0.0001]\<close>.
  The following \<open>step\<close> leaves the momentum \<open>[0.0035]\<close> and the step counter 1; the
  step size is \<open>1e-4 * max(1e-3, rms)\<close> with the rms of the parameter after weight decay,
  that is \<open>1e-4 * 0.99999\<close>; the ratio is \<open>0.0035 / (0.04 * 5120 * 0.0001 + 1e-15)\<close>,
  where \<open>0.04 * 5120 * 0.0001 = 0.02048\<close>; and the parameter is \<open>0.99999\<close> minus the
  product of the two.
\<close>

theorem scenario_values:
  "SophiaG_update_hessian (scenario 1 None) =
     Ok (scenario 1 (Some (scenario_state 0 0 (1 / 10000)))) \<and>
   SophiaG_step (scenario 1 (Some (scenario_state 0 0 (1 / 10000)))) 5120 =
     Ok (scenario
           (99999 / 100000 -
              (1 / 10000 * (99999 / 100000)) *
              ((35 / 10000) / (4 / 100 * 5120 * (1 / 10000) + 1 / 10 ^ 15)))
           (Some (scenario_state 1 (35 / 10000) (1 / 10000)))) \<and>
   1 / 10000 * max (1 / 1000) (rms_norm (imul (tensor1 1) (1 - 1 / 10000 * (1 / 10)))) =
     1 / 10000 * (99999 / 100000) \<and>
   ratio_of (4 / 100) 5120 1 (tensor1 (35 / 10000)) (tensor1 (1 / 10000)) =
     [(35 / 10000) / (2048 / 100000 + 1 / 10 ^ 15)]"
proof -
  have "SophiaG_update_hessian (scenario 1 None) =
      Ok (scenario 1 (Some (scenario_state 0 0 (1 / 10000))))"
    by (simp add: SophiaG_update_hessian_def scenario_def scenario_param_def scenario_state_def
        make_optimizer_def update_hessian_defs state_defs tensor_defs)
  moreover have "SophiaG_step (scenario 1 (Some (scenario_state 0 0 (1 / 10000)))) 5120 =
      Ok (scenario
           (99999 / 100000 -
              (1 / 10000 * (99999 / 100000)) *
              ((35 / 10000) / (4 / 100 * 5120 * (1 / 10000) + 1 / 10 ^ 15)))
           (Some (scenario_state 1 (35 / 10000) (1 / 10000))))"
    by (simp add: SophiaG_step_def sophiag_def single_tensor_sophiag_def
        single_tensor_sophiag_iter_def scenario_def scenario_param_def scenario_state_def
        make_optimizer_def
        step_defs state_defs tensor_defs ratio_defs rms_norm_single)
  moreover have
    "1 / 10000 * max (1 / 1000) (rms_norm (imul (tensor1 1) (1 - 1 / 10000 * (1 / 10)))) =
       1 / 10000 * (99999 / 100000)"
    by (simp add: tensor1_def imul_def rms_norm_single)
  moreover have
    "ratio_of (4 / 100) 5120 1 (tensor1 (35 / 10000)) (tensor1 (1 / 10000)) =
       [(35 / 10000) / (2048 / 100000 + 1 / 10 ^ 15)]"
    by (simp add: tensor1_def ratio_defs)
  ultimately show ?thesis by blast
qed

text \<open>
  C1 as it is stated fails: the parameter after the step is not
  \<open>0.99999 - 1e-4 * (0.0035 / 20.48)\<close>.
\<close>

theorem scenario_claimed_values_counterexample:
  "SophiaG_step (scenario 1 (Some (scenario_state 0 0 (1 / 10000)))) 5120 \<noteq>
     Ok (scenario (99999 / 100000 - 1 / 10000 * ((35 / 10000) / (2048 / 100)))
           (Some (scenario_state 1 (35 / 10000) (1 / 10000))))"
  by (simp add: SophiaG_step_def sophiag_def single_tensor_sophiag_def
      single_tensor_sophiag_iter_def scenario_def scenario_param_def scenario_state_def
        make_optimizer_def
      step_defs state_defs tensor_defs ratio_defs rms_norm_single)

subsection \<open>Construction\<close>


lemma init_of_eq:
  "init_of v params lr betas rho weight_decay maximize capturable =
     (case check_config lr betas rho weight_decay of
        Some e \<Rightarrow> Inl e
      | None \<Rightarrow>
          Optimizer_init params (number lr) (number (fst betas), number (snd betas))
            (number rho) (number weight_decay) maximize capturable)"
  by (cases v)
    (simp_all add: SophiaG_init_def SophiaG_RMS_init_def SophiaG_OG_init_def
      SophiaG_RMSD_init_def)




subsection \<open>The dispatcher of \<open>SophiaG_RMSD\<close>\<close>

lemma sophiag_rmsd_eq: "sophiag_rmsd = sophiag_rms"
  by (intro ext) (simp add: sophiag_rmsd_def sophiag_rms_def)

text \<open>
  C3. \<open>SophiaG_RMSD.step\<close> does what \<open>SophiaG_RMS.step\<close> does on the same optimizer and
  batch size, and \<open>sophiag_rmsd\<close> runs \<open>_single_tensor_sophiag_rms\<close>: the kernel
  \<open>_single_tensor_sophiag_rmsd\<close> is not called.
\<close>

theorem rmsd_step_is_rms_step:
  "SophiaG_RMSD_step opt bs = SophiaG_RMS_step opt bs \<and>
   sophiag_rmsd ps b beta1 beta2 rho lr weight_decay maximize capturable =
     single_tensor_sophiag_rms ps b beta1 beta2 rho lr weight_decay maximize capturable"
  by (simp add: SophiaG_RMSD_step_def SophiaG_RMS_step_def sophiag_rmsd_eq)
     (simp add: sophiag_rms_def)

text \<open>
  C2 fails on the code. After one \<open>update_hessian\<close> on the fresh state (hessian
  \<open>[0.01]\<close>), \<open>SophiaG_RMSD.step\<close> moves the parameter by the slow momentum \<open>0.01\<close>
  (decay \<open>beta1 = 0.99\<close>); with the kernel \<open>_single_tensor_sophiag_rmsd\<close> in the place
  of the dispatcher it would move by the fast momentum \<open>0.05\<close>.
\<close>

theorem rmsd_step_uses_slow_momentum:
  "SophiaG_RMSD_update_hessian (rmsd_scenario 1 None) =
     Ok (rmsd_scenario 1 (Some (rms_state 0 0 (1 / 100) 0))) \<and>
   SophiaG_RMSD_step (rmsd_scenario 1 (Some (rms_state 0 0 (1 / 100) 0))) 5120 =
     Ok (rmsd_scenario
           (99999 / 100000 -
              1 / 10000 * ((1 / 100) / (4 / 100 * 5120 * (1 / 100) + 1 / 10 ^ 15)))
           (Some (rms_state 1 (1 / 100) (1 / 100) (99999 / 100000)))) \<and>
   step_with collect_param_rms single_tensor_sophiag_rmsd
       (rmsd_scenario 1 (Some (rms_state 0 0 (1 / 100) 0))) 5120 =
     Ok (rmsd_scenario
           (99999 / 100000 -
              1 / 10000 * ((5 / 100) / (4 / 100 * 5120 * (1 / 100) + 1 / 10 ^ 15)))
           (Some (rms_state 1 (1 / 100) (1 / 100) (99999 / 100000)))) \<and>
   SophiaG_RMSD_step (rmsd_scenario 1 (Some (rms_state 0 0 (1 / 100) 0))) 5120 \<noteq>
     step_with collect_param_rms single_tensor_sophiag_rmsd
       (rmsd_scenario 1 (Some (rms_state 0 0 (1 / 100) 0))) 5120"
  by (simp add: SophiaG_RMSD_update_hessian_def SophiaG_RMSD_step_def sophiag_rmsd_def
      single_tensor_sophiag_rms_def single_tensor_sophiag_rmsd_def
      single_tensor_sophiag_rms_iter_def single_tensor_sophiag_rmsd_iter_def
      rmsd_scenario_def rms_state_def make_optimizer_def update_hessian_defs step_defs
      state_defs tensor_defs ratio_defs rms_norm_single)

subsection \<open>Sparse gradients\<close>

text \<open>\<open>step\<close> stops at a sparse gradient before it touches the state.\<close>

lemma step_sparse: 
  "SophiaG_step (sparse_scenario st) bs = Raised RuntimeError (sparse_scenario st) \<and>
   SophiaG_RMS_step (sparse_scenario st) bs = Raised RuntimeError (sparse_scenario st) \<and>
   SophiaG_OG_step (sparse_scenario st) bs = Raised RuntimeError (sparse_scenario st) \<and>
   SophiaG_RMSD_step (sparse_scenario st) bs = Raised RuntimeError (sparse_scenario st)"
  by (simp add: SophiaG_step_def SophiaG_RMS_step_def SophiaG_OG_step_def SophiaG_RMSD_step_def
     sparse_scenario_def make_optimizer_def step_defs)

text \<open>
  C6 fails on the code for \<open>update_hessian\<close>, which has no check of \<open>is_sparse\<close>: the
  state of the parameter is created, or its hessian buffer scaled by \<open>beta2\<close>, before
  anything is raised, and what is raised is not the error of \<open>step\<close>.
\<close>

theorem update_hessian_sparse:
  "SophiaG_update_hessian (sparse_scenario (Some (scenario_state 0 0 1))) =
     Raised NotImplementedError (sparse_scenario (Some (scenario_state 0 0 (99 / 100)))) \<and>
   SophiaG_update_hessian (sparse_scenario None) =
     Raised NotImplementedError (sparse_scenario (Some (scenario_state 0 0 0))) \<and>
   SophiaG_RMS_update_hessian (sparse_scenario (Some (rms_state 0 0 1 0))) =
     Raised NotImplementedError (sparse_scenario (Some (rms_state 0 0 (99 / 100) 0))) \<and>
   SophiaG_OG_update_hessian (sparse_scenario (Some (rms_state 0 0 1 0))) =
     Raised NotImplementedError (sparse_scenario (Some (rms_state 0 0 (99 / 100) 0))) \<and>
   SophiaG_RMSD_update_hessian (sparse_scenario (Some (rms_state 0 0 1 0))) =
     Raised NotImplementedError (sparse_scenario (Some (rms_state 0 0 (99 / 100) 0)))"
  by (simp add: SophiaG_update_hessian_def SophiaG_RMS_update_hessian_def SophiaG_OG_update_hessian_def
     SophiaG_RMSD_update_hessian_def sparse_scenario_def scenario_state_def rms_state_def make_optimizer_def
      update_hessian_defs state_defs tensor_defs)

subsection \<open>Loops and invariants\<close>

lemma for_each_pres:
  assumes "\<And>x. P x \<Longrightarrow> P (result_state (f x))"
  shows "list_all P xs \<Longrightarrow> list_all P (result_state (for_each f xs))"
proof (induction xs)
  case Nil
  then show ?case by simp
next
  case (Cons x xs)
  then have px: "P (result_state (f x))" and ih: "list_all P (result_state (for_each f xs))"
    and pxs: "list_all P xs"
    using assms by simp_all
  show ?case
  proof (cases "f x")
    case (Raised e x')
    with px pxs show ?thesis by simp
  next
    case (Ok x')
    with px ih show ?thesis by (cases "for_each f xs") simp_all
  qed
qed

lemma for_each_st_pres:
  assumes "\<And>s x. P x \<Longrightarrow> P (fst (result_state (f s x)))"
  shows "list_all P xs \<Longrightarrow> list_all P (fst (result_state (for_each_st f s xs)))"
proof (induction xs arbitrary: s)
  case Nil
  then show ?case by simp
next
  case (Cons x xs)
  then have px: "P (fst (result_state (f s x)))" and pxs: "list_all P xs"
    using assms by simp_all
  show ?case
  proof (cases "f s x")
    case (Raised e y)
    with px pxs show ?thesis by (cases y) simp
  next
    case (Ok y)
    obtain x' s' where y: "y = (x', s')" by (cases y)
    have "list_all P (fst (result_state (for_each_st f s' xs)))"
      using Cons.IH pxs by simp
    with px Ok y show ?thesis
      by (cases "for_each_st f s' xs") (auto split: prod.splits)
  qed
qed

lemma group_params_map_result:
  "group_params (result_state (map_result (\<lambda>ps. g\<lparr>group_params := ps\<rparr>) r)) = result_state r"
  by (cases r) simp_all

lemma group_betas_map_result:
  "group_betas (result_state (map_result (\<lambda>ps. g\<lparr>group_params := ps\<rparr>) r)) = group_betas g"
  by (cases r) simp_all

lemma param_groups_map_result:
  "param_groups (result_state (map_result (\<lambda>gs. opt\<lparr>param_groups := gs\<rparr>) r)) = result_state r"
  by (cases r) simp_all

lemma update_hessian_with_pres:
  assumes par: "\<And>b2 p. Q b2 \<Longrightarrow> P p \<Longrightarrow> P (result_state (update_hessian_param init c b2 p))"
    and c: "c = defaults_capturable opt"
    and inv: "list_all (\<lambda>g. Q (snd (group_betas g)) \<and> list_all P (group_params g)) (param_groups opt)"
  shows "list_all (\<lambda>g. Q (snd (group_betas g)) \<and> list_all P (group_params g))
           (param_groups (result_state (update_hessian_with init opt)))"
proof -
  have grp: "Q (snd (group_betas g')) \<and> list_all P (group_params g')"
    if "Q (snd (group_betas g)) \<and> list_all P (group_params g)"
      and "g' = result_state (update_hessian_group init c g)" for g g'
    using that for_each_pres [of P "update_hessian_param init c (snd (group_betas g))" "group_params g"] par
    by (simp add: update_hessian_group_def group_params_map_result group_betas_map_result)
  show ?thesis
    unfolding update_hessian_with_def param_groups_map_result c [symmetric]
    by (rule for_each_pres [OF _ inv]) (use grp in blast)
qed


lemma param_groups_map_result_pair:
  "param_groups (result_state (map_result (\<lambda>(gs, b). opt\<lparr>param_groups := gs\<rparr>) r)) =
     fst (result_state r)"
  by (cases r) (simp_all split: prod.splits)

lemma step_group_pres:
  assumes col: "\<And>s p. P p \<Longrightarrow> P (fst (result_state (collect c s p)))"
    and dis: "\<And>ps b b1 b2 rho lr wd mx cap.
      list_all P ps \<Longrightarrow> list_all P (result_state (dispatch ps b b1 b2 rho lr wd mx cap))"
    and inv: "list_all P (group_params g)"
  shows "list_all P (group_params (fst (result_state (step_group collect dispatch c bs g)))) \<and>
    group_betas (fst (result_state (step_group collect dispatch c bs g))) = group_betas g"
proof -
  have 1: "list_all P (fst (result_state (for_each_st (collect c) bs (group_params g))))"
    by (rule for_each_st_pres [OF col inv])
  show ?thesis
  proof (cases "for_each_st (collect c) bs (group_params g)")
    case (Raised e y)
    with 1 show ?thesis by (cases y) (simp add: step_group_def)
  next
    case (Ok y)
    obtain ps bs' where y: "y = (ps, bs')" by (cases y)
    from 1 Ok y have "list_all P ps" by simp
    then have 2: "list_all P (result_state (dispatch ps bs' (fst (group_betas g))
               (snd (group_betas g)) (group_rho g) (group_lr g) (group_weight_decay g)
               (group_maximize g) (group_capturable g)))"
      by (rule dis)
    show ?thesis
    proof (cases "dispatch ps bs' (fst (group_betas g)) (snd (group_betas g)) (group_rho g)
               (group_lr g) (group_weight_decay g) (group_maximize g) (group_capturable g)")
      case (Ok ps')
      with 2 \<open>for_each_st (collect c) bs (group_params g) = Ok y\<close> y show ?thesis
        by (simp add: step_group_def)
    next
      case (Raised e ps')
      with 2 \<open>for_each_st (collect c) bs (group_params g) = Ok y\<close> y show ?thesis
        by (simp add: step_group_def)
    qed
  qed
qed

lemma step_with_pres:
  assumes col: "\<And>s p. P p \<Longrightarrow> P (fst (result_state (collect c s p)))"
    and dis: "\<And>ps b b1 b2 rho lr wd mx cap.
      list_all P ps \<Longrightarrow> list_all P (result_state (dispatch ps b b1 b2 rho lr wd mx cap))"
    and c: "c = defaults_capturable opt"
    and inv: "list_all (\<lambda>g. Q (snd (group_betas g)) \<and> list_all P (group_params g)) (param_groups opt)"
  shows "list_all (\<lambda>g. Q (snd (group_betas g)) \<and> list_all P (group_params g))
           (param_groups (result_state (step_with collect dispatch opt bs)))"
proof -
  let ?G = "\<lambda>g. Q (snd (group_betas g)) \<and> list_all P (group_params g)"
  have grp: "?G (fst (result_state (step_group collect dispatch c s g)))" if "?G g" for s g
  proof -
    from that have "list_all P (group_params g)" by simp
    from step_group_pres [of P collect c dispatch g s, OF col dis this] that
    show ?thesis by simp
  qed
  have "list_all ?G (fst (result_state
      (for_each_st (step_group collect dispatch c) (BsNum bs) (param_groups opt))))"
    by (rule for_each_st_pres [of ?G, OF _ inv]) (rule grp)
  then show ?thesis
    by (simp add: step_with_def param_groups_map_result_pair c)
qed

subsection \<open>The hessian buffer stays in its range\<close>

lemma init_state_hessian: "state_hessian (init_state c t) = Some (zeros_like t)"
  by (simp add: init_state_def)

lemma init_state_rms_hessian: "state_hessian (init_state_rms c t) = Some (zeros_like t)"
  by (simp add: init_state_rms_def)

lemma range_max: "0 \<le> grad_max" "0 \<le> hessian_max" "grad_max * grad_max = hessian_max"
  by (simp_all add: grad_max_def hessian_max_def)

lemma zeros_in_range: "list_all (\<lambda>x. (0::real) \<le> x \<and> x \<le> hessian_max) (replicate n 0)"
  by (induction n) (simp_all add: range_max)

lemma hessian_buffer_in_range:
  assumes "hessian_in_range p"
    and "\<And>c t. state_hessian (init c t) = Some (zeros_like t)"
  shows "list_all (\<lambda>x. 0 \<le> x \<and> x \<le> hessian_max)
           (vals (hessian_buffer (p_data p) (ensure_state init c p)))"
  using assms
  by (auto simp: hessian_in_range_def hessian_buffer_def ensure_state_def backfill_hessian_def
      zeros_like_def zeros_in_range split: option.splits)

lemma ema_entry_in_range:
  assumes b: "0 \<le> (b2::real)" "b2 < 1" and h: "0 \<le> h" "h \<le> hessian_max" and g: "\<bar>g\<bar> \<le> grad_max"
  shows "0 \<le> h * b2 + (1 - b2) * (g * g) \<and> h * b2 + (1 - b2) * (g * g) \<le> hessian_max"
proof
  have "0 \<le> h * b2" using h(1) b(1) by (rule mult_nonneg_nonneg)
  moreover have "0 \<le> (1 - b2) * (g * g)" using b(2) by (simp add: zero_le_mult_iff)
  ultimately show "0 \<le> h * b2 + (1 - b2) * (g * g)" by (rule add_nonneg_nonneg)
  have "g * g = \<bar>g\<bar> * \<bar>g\<bar>" by simp
  also have "\<dots> \<le> grad_max * grad_max" using g by (intro mult_mono) (simp_all add: range_max)
  finally have gg: "g * g \<le> hessian_max" by (simp add: range_max)
  have "h * b2 \<le> hessian_max * b2" using h(2) b(1) by (rule mult_right_mono)
  moreover have "(1 - b2) * (g * g) \<le> (1 - b2) * hessian_max"
    using gg b(2) by (intro mult_left_mono) simp_all
  ultimately have "h * b2 + (1 - b2) * (g * g) \<le> hessian_max * b2 + (1 - b2) * hessian_max"
    by (rule add_mono)
  also have "\<dots> = hessian_max" by (simp add: algebra_simps)
  finally show "h * b2 + (1 - b2) * (g * g) \<le> hessian_max" .
qed

lemma ema_in_range:
  assumes "0 \<le> (b2::real)" "b2 < 1" "list_all (\<lambda>x. 0 \<le> x \<and> x \<le> hessian_max) hs"
    and "list_all (\<lambda>x. \<bar>x\<bar> \<le> grad_max) gs"
  shows "list_all (\<lambda>x. 0 \<le> x \<and> x \<le> hessian_max)
           (map (\<lambda>(x, y, z). x + (1 - b2) * (y * z)) (zip (map (\<lambda>x. x * b2) hs) (zip gs gs)))"
  using assms(3,4)
proof (induction hs arbitrary: gs)
  case Nil
  then show ?case by simp
next
  case (Cons h hs)
  show ?case
  proof (cases gs)
    case Nil
    then show ?thesis by simp
  next
    case (Cons g gs')
    with Cons.prems have "0 \<le> h" "h \<le> hessian_max" "\<bar>g\<bar> \<le> grad_max" by simp_all
    from ema_entry_in_range [OF assms(1,2) this] Cons Cons.IH [of gs'] Cons.prems
    show ?thesis by simp
  qed
qed

lemma scaled_in_range:
  assumes "0 \<le> (b2::real)" "b2 < 1" "list_all (\<lambda>x. 0 \<le> x \<and> x \<le> hessian_max) hs"
  shows "list_all (\<lambda>x. 0 \<le> x \<and> x \<le> hessian_max) (map (\<lambda>x. x * b2) hs)"
  using assms(3)
proof (induction hs)
  case Nil
  then show ?case by simp
next
  case (Cons h hs)
  then have h: "0 \<le> h" "h \<le> hessian_max" by simp_all
  have "0 \<le> h * b2" using h(1) assms(1) by (rule mult_nonneg_nonneg)
  moreover have "h * b2 \<le> hessian_max * 1"
    using h assms by (intro mult_mono) (simp_all add: range_max)
  ultimately show ?case using Cons by simp
qed

lemma update_hessian_param_in_range:
  assumes b2: "0 \<le> b2 \<and> b2 < 1" and inv: "in_range p"
    and init: "\<And>c t. state_hessian (init c t) = Some (zeros_like t)"
  shows "in_range (result_state (update_hessian_param init c b2 p))"
proof (cases "p_grad p")
  case None
  with inv show ?thesis by (simp add: update_hessian_param_def)
next
  case (Some g)
  from inv have hp: "hessian_in_range p" by (simp add: in_range_def)
  have h: "list_all (\<lambda>x. 0 \<le> x \<and> x \<le> hessian_max)
      (vals (hessian_buffer (p_data p) (ensure_state init c p)))"
    by (rule hessian_buffer_in_range [OF hp init])
  show ?thesis
  proof (cases g)
    case (Dense gt)
    with Some inv have "list_all (\<lambda>x. \<bar>x\<bar> \<le> grad_max) (vals gt)"
      by (simp add: in_range_def grad_in_range_def)
    with Some Dense ema_in_range [of b2 _ "vals gt"] b2 h inv show ?thesis
      by (simp add: update_hessian_param_def in_range_def hessian_in_range_def imul_def
          iaddcmul_def Let_def)
  next
    case (Sparse gt)
    with Some scaled_in_range [of b2] b2 h inv show ?thesis
      by (simp add: update_hessian_param_def in_range_def hessian_in_range_def imul_def Let_def)
  qed
qed

lemma ensure_state_in_range:
  assumes "in_range p" and "\<And>c t. state_hessian (init c t) = Some (zeros_like t)"
  shows "in_range (p\<lparr>p_state := Some (ensure_state init c p)\<rparr>)"
  using assms
  by (auto simp: in_range_def hessian_in_range_def ensure_state_def backfill_hessian_def
      zeros_like_def zeros_in_range split: option.splits)

lemma collect_param_in_range:
  "in_range p \<Longrightarrow> in_range (fst (result_state (collect_param c s p)))"
  using ensure_state_in_range [where init = init_state and p = p, OF _ init_state_hessian]
  by (simp add: collect_param_def Let_def split: option.splits grad.splits)

lemma collect_param_rms_in_range:
  "in_range p \<Longrightarrow> in_range (fst (result_state (collect_param_rms c s p)))"
  using ensure_state_in_range [where init = init_state_rms and p = p,
      OF _ init_state_rms_hessian]
  by (simp add: collect_param_rms_def Let_def split: option.splits grad.splits)

lemma on_param_in_range:
  "in_range p \<Longrightarrow> in_range (result_state (on_param iter p))"
  by (cases "iter (p_data p, case_grad id id (the (p_grad p)), state_exp_avg (the (p_state p)),
        the (state_hessian (the (p_state p))), state_step (the (p_state p)))")
    (auto simp: on_param_def in_range_def hessian_in_range_def
      split: option.splits grad.splits prod.splits)

lemma on_param_rms_in_range:
  "in_range p \<Longrightarrow> in_range (result_state (on_param_rms iter p))"
  by (cases "iter (p_data p, case_grad id id (the (p_grad p)), state_exp_avg (the (p_state p)),
        the (state_rms (the (p_state p))),
        the (state_hessian (the (p_state p))), state_step (the (p_state p)))")
    (auto simp: on_param_rms_def in_range_def hessian_in_range_def
      split: option.splits grad.splits prod.splits)

lemma dispatch_in_range:
  assumes "list_all in_range ps"
  shows "list_all in_range (result_state (sophiag ps b b1 b2 rho lr wd mx cap))"
    and "list_all in_range (result_state (sophiag_rms ps b b1 b2 rho lr wd mx cap))"
    and "list_all in_range (result_state (sophiag_og ps b b1 b2 rho lr wd mx cap))"
    and "list_all in_range (result_state (sophiag_rmsd ps b b1 b2 rho lr wd mx cap))"
  unfolding sophiag_def sophiag_rms_def sophiag_og_def sophiag_rmsd_def Let_def
    single_tensor_sophiag_def single_tensor_sophiag_rms_def single_tensor_sophiag_og_def
  by (rule for_each_pres [OF _ assms], erule on_param_in_range on_param_rms_in_range)+

lemma step_with_range:
  assumes "\<And>c s p. in_range p \<Longrightarrow> in_range (fst (result_state (collect c s p)))"
    and "\<And>ps b b1 b2 rho lr wd mx cap. list_all in_range ps \<Longrightarrow>
      list_all in_range (result_state (dispatch ps b b1 b2 rho lr wd mx cap))"
    and "range_inv opt"
  shows "range_inv (result_state (step_with collect dispatch opt bs))"
  using assms(3) unfolding range_inv_def
  by (intro step_with_pres [where Q = "\<lambda>b. 0 \<le> b \<and> b < 1" and P = in_range
        and c = "defaults_capturable opt"] assms(1,2) refl)

lemma step_of_range: "range_inv opt \<Longrightarrow> range_inv (result_state (step_of v opt bs))"
proof (cases v)
  case Base
  assume "range_inv opt"
  then show ?thesis
    unfolding Base step_of.simps SophiaG_step_def
    by (intro step_with_range collect_param_in_range dispatch_in_range)
next
  case RMS
  assume "range_inv opt"
  then show ?thesis
    unfolding RMS step_of.simps SophiaG_RMS_step_def
    by (intro step_with_range collect_param_rms_in_range dispatch_in_range)
next
  case OG
  assume "range_inv opt"
  then show ?thesis
    unfolding OG step_of.simps SophiaG_OG_step_def
    by (intro step_with_range collect_param_rms_in_range dispatch_in_range)
next
  case RMSD
  assume "range_inv opt"
  then show ?thesis
    unfolding RMSD step_of.simps SophiaG_RMSD_step_def
    by (intro step_with_range collect_param_rms_in_range dispatch_in_range)
qed

lemma update_hessian_with_range:
  assumes "\<And>c t. state_hessian (init c t) = Some (zeros_like t)" and "range_inv opt"
  shows "range_inv (result_state (update_hessian_with init opt))"
  using assms(2) unfolding range_inv_def
  by (intro update_hessian_with_pres [where Q = "\<lambda>b. 0 \<le> b \<and> b < 1" and P = in_range
        and c = "defaults_capturable opt"] update_hessian_param_in_range assms(1) refl)

lemma update_hessian_of_range:
  "range_inv opt \<Longrightarrow> range_inv (result_state (update_hessian_of v opt))"
  by (cases v)
    (simp_all add: SophiaG_update_hessian_def SophiaG_RMS_update_hessian_def
      SophiaG_OG_update_hessian_def SophiaG_RMSD_update_hessian_def
      update_hessian_with_range init_state_hessian init_state_rms_hessian)

lemma assign_grads_in_range:
  "list_all in_range ps \<Longrightarrow> list_all grad_in_range gs \<Longrightarrow>
   list_all in_range (assign_grads gs ps)"
  by (induction gs ps rule: assign_grads.induct)
    (simp_all add: in_range_def hessian_in_range_def)

lemma backward_range:
  assumes "range_inv opt" and "list_all (list_all grad_in_range) gss"
  shows "range_inv (backward gss opt)"
proof -
  have "list_all (\<lambda>g. (0 \<le> snd (group_betas g) \<and> snd (group_betas g) < 1) \<and>
                   list_all in_range (group_params g)) (assign_group_grads gss grps)"
    if "list_all (\<lambda>g. (0 \<le> snd (group_betas g) \<and> snd (group_betas g) < 1) \<and>
                   list_all in_range (group_params g)) grps"
      and "list_all (list_all grad_in_range) gss" for grps
    using that
    by (induction gss grps rule: assign_group_grads.induct)
      (simp_all add: assign_grads_in_range)
  with assms show ?thesis
    by (simp add: range_inv_def backward_def)
qed

lemma exec_range: "range_inv opt \<Longrightarrow> call_in_range c \<Longrightarrow> range_inv (exec v opt c)"
  by (cases c) (simp_all add: backward_range step_of_range update_hessian_of_range
      call_in_range_def)

lemma run_range:
  "range_inv opt \<Longrightarrow> list_all call_in_range calls \<Longrightarrow> range_inv (run v opt calls)"
  unfolding run_def by (induction calls arbitrary: opt) (simp_all add: exec_range)

lemma range_inv_iff: "range_inv opt \<longleftrightarrow> betas_valid opt \<and> all_params in_range opt"
  by (auto simp: range_inv_def betas_valid_def all_params_def list_all_iff)

lemma init_of_Params_range:
  assumes "init_of v (Params ps) lr betas rho wd mx cap = Inr opt" and "list_all in_range ps"
  shows "range_inv opt"
proof -
  from assms(1) have c: "check_config lr betas rho wd = None"
    and o: "opt = make_optimizer ps (number lr) (number (fst betas), number (snd betas))
      (number rho) (number wd) mx cap"
    by (auto simp: init_of_eq Optimizer_init_def constructed_def
        split: option.splits if_splits)
  from c have "0 \<le> number (snd betas) \<and> number (snd betas) < 1"
    by (cases "snd betas") (auto simp: check_config_def split: if_splits)
  with o assms(2) show ?thesis
    by (simp add: range_inv_def make_optimizer_def)
qed

text \<open>
  C10, as amended. \<open>beta2\<close> of every group is in \<open>[0, 1)\<close>, as it is after a
  construction on a collection of parameters; every hessian buffer that exists
  has its entries in \<open>[0, 2\<^sup>1\<^sup>2\<^sup>6]\<close> (fresh parameters have no state), and every entry of
  every gradient, then and whenever gradients are assigned, is at most \<open>2\<^sup>6\<^sup>3\<close> in
  absolute value. Then after any sequence of gradient assignments, \<open>step\<close> calls and
  \<open>update_hessian\<close> calls, whether they return or raise, every entry of every hessian
  buffer is at least 0, and at most \<open>2\<^sup>1\<^sup>2\<^sup>6\<close>, so that nothing has overflowed.
\<close>

theorem hessian_in_range_always:
  "(init_of v (Params ps) lr betas rho weight_decay maximize capturable = Inr opt \<and>
    list_all in_range ps \<and> list_all call_in_range calls \<longrightarrow>
    all_params hessian_in_range (run v opt calls)) \<and>
   (betas_valid opt \<and> all_params in_range opt \<and> list_all call_in_range calls \<longrightarrow>
    all_params hessian_in_range (run v opt calls))"
proof (intro conjI impI; elim conjE)
  assume i: "init_of v (Params ps) lr betas rho weight_decay maximize capturable = Inr opt"
    and p: "list_all in_range ps" and c: "list_all call_in_range calls"
  have "range_inv opt" by (rule init_of_Params_range [OF i p])
  from run_range [OF this c] show "all_params hessian_in_range (run v opt calls)"
    by (simp add: range_inv_iff all_params_def in_range_def list_all_iff)
next
  assume "betas_valid opt" "all_params in_range opt" and c: "list_all call_in_range calls"
  then have "range_inv opt" by (simp add: range_inv_iff)
  from run_range [OF this c] show "all_params hessian_in_range (run v opt calls)"
    by (simp add: range_inv_iff all_params_def in_range_def list_all_iff)
qed

theorem hessian_in_range_always_witness:
  "init_of Base (Params [scenario_param]) (PyNum (1 / 10000)) default_betas (PyNum (4 / 100))
     (PyNum (1 / 10)) False False = Inr (scenario 1 None) \<and>
   list_all in_range [scenario_param] \<and> list_all call_in_range scenario_calls \<and>
   betas_valid (scenario 1 None) \<and> all_params in_range (scenario 1 None) \<and>
   all_params hessian_in_range (run Base (scenario 1 None) scenario_calls)"
proof -
  have 1: "init_of Base (Params [scenario_param]) (PyNum (1 / 10000)) default_betas
     (PyNum (4 / 100)) (PyNum (1 / 10)) False False = Inr (scenario 1 None)"
    by (simp add: SophiaG_init_def check_config_def Optimizer_init_def no_params_def
        constructed_def default_betas_def scenario_def scenario_param_def)
  have 2: "list_all in_range [scenario_param]"
    by (simp add: in_range_def hessian_in_range_def grad_in_range_def scenario_param_def
        tensor1_def grad_max_def)
  have 3: "list_all call_in_range scenario_calls"
    by (simp add: scenario_calls_def call_in_range_def grad_in_range_def tensor1_def
        grad_max_def)
  have 4: "betas_valid (scenario 1 None)"
    by (simp add: betas_valid_def scenario_def make_optimizer_def)
  have 5: "all_params in_range (scenario 1 None)"
    by (simp add: all_params_def in_range_def hessian_in_range_def grad_in_range_def
        scenario_def scenario_param_def make_optimizer_def tensor1_def grad_max_def)
  from 1 2 3 4 5
    hessian_in_range_always [of Base "[scenario_param]" "PyNum (1 / 10000)" default_betas
      "PyNum (4 / 100)" "PyNum (1 / 10)" False False "scenario 1 None" scenario_calls]
  show ?thesis by blast
qed

text \<open>
  C10 as it is stated fails. A group may give its own \<open>betas\<close>, which no constructor
  checks: with \<open>beta2 = 1.5\<close> and the gradient \<open>[0.1]\<close>, \<open>update_hessian\<close> leaves the
  hessian \<open>[-0.005]\<close>. And in float32, under the valid \<open>betas=(0.5, 0)\<close>, the gradient
  entry \<open>2\<^sup>6\<^sup>7\<close> makes the hessian entry infinite, and the next \<open>update_hessian\<close> makes
  it NaN, which is not at least 0.
\<close>

theorem hessian_negative_counterexample:
  "init_of Base (Groups [override_spec]) (PyNum (1 / 10000)) default_betas (PyNum (4 / 100))
     (PyNum (1 / 10)) False False = Inr (override_scenario None) \<and>
   update_hessian_of Base (override_scenario None) =
     Ok (override_scenario (Some (scenario_state 0 0 (- (1 / 200))))) \<and>
   \<not> invalid_config (PyNum (1 / 10000)) (PyNum (1 / 2), PyNum 0) (PyNum (4 / 100))
       (PyNum (1 / 10)) \<and>
   hessian_entry_f32 0 (Fin 0) (Fin (2 ^ 67)) = PInf \<and>
   hessian_entry_f32 0 (hessian_entry_f32 0 (Fin 0) (Fin (2 ^ 67))) (Fin (2 ^ 67)) = NaN"
  by (simp add: SophiaG_init_def check_config_def Optimizer_init_def no_params_def
      constructed_def add_param_group_def default_betas_def override_spec_def
      override_scenario_def scenario_param_def scenario_state_def SophiaG_update_hessian_def
      update_hessian_defs state_defs tensor_defs invalid_config_def in_unit_def
      hessian_entry_f32_def to_f32_def fmax_def)

subsection \<open>The frame of \<open>update_hessian\<close>\<close>

lemma for_each_Ok:
  "for_each f xs = Ok ys \<Longrightarrow> list_all2 (\<lambda>x y. f x = Ok y) xs ys"
proof (induction xs arbitrary: ys)
  case Nil
  then show ?case by simp
next
  case (Cons x xs)
  then obtain x' where x: "f x = Ok x'"
    by (cases "f x") simp_all
  with Cons.prems obtain xs' where xs: "for_each f xs = Ok xs'" and ys: "ys = x' # xs'"
    by (cases "for_each f xs") simp_all
  from Cons.IH [OF xs] x ys show ?case by simp
qed

lemma ema_vals:
  "map (\<lambda>(x, y, z). x + (1 - (b2::real)) * (y * z)) (zip (map (\<lambda>x. x * b2) hs) (zip gs gs)) =
     map2 (\<lambda>x y. b2 * x + (1 - b2) * y\<^sup>2) hs gs"
proof (induction hs arbitrary: gs)
  case Nil
  then show ?case by simp
next
  case (Cons h hs)
  then show ?case by (cases gs) (simp_all add: power2_eq_square mult.commute)
qed

lemma iaddcmul_imul_ema:
  "iaddcmul (imul h b2) (vals g) (vals g) (1 - b2) = hessian_ema b2 h g"
  by (simp add: iaddcmul_def imul_def hessian_ema_def ema_vals)

lemma update_hessian_param_Ok:
  assumes "update_hessian_param init c b2 p = Ok p'"
  shows "hessian_updated b2 p p'"
proof (cases "p_grad p")
  case None
  then show ?thesis by (simp add: hessian_updated_def)
next
  case (Some g)
  show ?thesis
  proof (cases g)
    case (Sparse gt)
    with Some show ?thesis by (simp add: hessian_updated_def)
  next
    case (Dense gt)
    show ?thesis
    proof (cases "p_state p")
      case None
      with Some Dense show ?thesis by (simp add: hessian_updated_def)
    next
      case st: (Some st)
      have 1: "hessian_buffer (p_data p) (backfill_hessian (p_data p) st) =
          hessian_buffer (p_data p) st"
        by (simp add: hessian_buffer_def backfill_hessian_def split: option.splits)
      have 2: "(backfill_hessian (p_data p) st)\<lparr>state_hessian := x\<rparr> = st\<lparr>state_hessian := x\<rparr>" for x
        by (simp add: backfill_hessian_def split: option.splits)
      from assms Some Dense st show ?thesis
        by (simp add: hessian_updated_def update_hessian_param_def ensure_state_def Let_def
            iaddcmul_imul_ema 1 2)
    qed
  qed
qed

lemma update_hessian_with_Ok:
  assumes "update_hessian_with init opt = Ok opt'"
  shows "list_all2 (\<lambda>g g'. list_all2 (hessian_updated (snd (group_betas g)))
            (group_params g) (group_params g')) (param_groups opt) (param_groups opt')"
proof -
  from assms obtain gs where gs: "for_each (update_hessian_group init (defaults_capturable opt))
      (param_groups opt) = Ok gs" and opt': "opt' = opt\<lparr>param_groups := gs\<rparr>"
    by (cases "for_each (update_hessian_group init (defaults_capturable opt)) (param_groups opt)")
      (auto simp: update_hessian_with_def)
  have "list_all2 (hessian_updated (snd (group_betas g))) (group_params g) (group_params g')"
    if "update_hessian_group init (defaults_capturable opt) g = Ok g'" for g g'
  proof -
    from that obtain ps where ps: "for_each (update_hessian_param init (defaults_capturable opt)
        (snd (group_betas g))) (group_params g) = Ok ps" and g': "g' = g\<lparr>group_params := ps\<rparr>"
      by (cases "for_each (update_hessian_param init (defaults_capturable opt)
        (snd (group_betas g))) (group_params g)") (auto simp: update_hessian_group_def)
    from for_each_Ok [OF ps] g' show ?thesis
      by (auto elim!: list_all2_mono dest: update_hessian_param_Ok)
  qed
  with for_each_Ok [OF gs] opt' show ?thesis
    by (auto elim!: list_all2_mono)
qed
lemma for_each_returns:
  "list_all (\<lambda>x. \<exists>y. f x = Ok y) xs \<Longrightarrow> \<exists>ys. for_each f xs = Ok ys"
proof (induction xs)
  case Nil
  then show ?case by simp
next
  case (Cons x xs)
  then obtain y ys where "f x = Ok y" "for_each f xs = Ok ys" by auto
  then show ?case by simp
qed

lemma update_hessian_param_returns:
  "no_sparse p \<Longrightarrow> \<exists>p'. update_hessian_param init c b2 p = Ok p'"
  by (simp add: update_hessian_param_def no_sparse_def Let_def split: option.splits grad.splits)

lemma update_hessian_with_returns:
  assumes "all_params no_sparse opt"
  shows "\<exists>opt'. update_hessian_with init opt = Ok opt'"
proof -
  have "\<exists>g'. update_hessian_group init c g = Ok g'" if "list_all no_sparse (group_params g)"
    for c g
  proof -
    have "list_all (\<lambda>p. \<exists>p'. update_hessian_param init c (snd (group_betas g)) p = Ok p')
        (group_params g)"
      using that by (simp add: list_all_iff update_hessian_param_returns)
    from for_each_returns [OF this] show ?thesis
      by (auto simp: update_hessian_group_def)
  qed
  with assms have "list_all (\<lambda>g. \<exists>g'. update_hessian_group init (defaults_capturable opt) g
      = Ok g') (param_groups opt)"
    by (simp add: all_params_def list_all_iff)
  from for_each_returns [OF this] show ?thesis
    by (auto simp: update_hessian_with_def)
qed

lemma update_hessian_of_returns:
  "all_params no_sparse opt \<Longrightarrow> \<exists>opt'. update_hessian_of v opt = Ok opt'"
  by (cases v)
    (simp_all add: SophiaG_update_hessian_def SophiaG_RMS_update_hessian_def
      SophiaG_OG_update_hessian_def SophiaG_RMSD_update_hessian_def update_hessian_with_returns)

text \<open>
  C9. \<open>update_hessian\<close> of any of the four classes returns when no gradient is
  sparse. When it returns, every parameter that had a dense gradient and a state has
  its hessian buffer replaced by \<open>beta2 * hessian + (1 - beta2) * gradient\<^sup>2\<close>, with
  \<open>beta2\<close> of its group, and its step counter, momentum buffer, values and gradient are
  as before.
\<close>

theorem update_hessian_frame:
  "(all_params no_sparse opt \<longrightarrow> (\<exists>opt'. update_hessian_of v opt = Ok opt')) \<and>
   (update_hessian_of v opt = Ok opt' \<longrightarrow>
    list_all2 (\<lambda>g g'. list_all2 (hessian_updated (snd (group_betas g)))
        (group_params g) (group_params g')) (param_groups opt) (param_groups opt'))"
proof (intro conjI impI)
  assume "all_params no_sparse opt"
  then show "\<exists>opt'. update_hessian_of v opt = Ok opt'"
    by (rule update_hessian_of_returns)
next
  assume "update_hessian_of v opt = Ok opt'"
  then show "list_all2 (\<lambda>g g'. list_all2 (hessian_updated (snd (group_betas g)))
        (group_params g) (group_params g')) (param_groups opt) (param_groups opt')"
    by (cases v)
      (simp_all add: SophiaG_update_hessian_def SophiaG_RMS_update_hessian_def
        SophiaG_OG_update_hessian_def SophiaG_RMSD_update_hessian_def update_hessian_with_Ok)
qed

theorem update_hessian_frame_witness:
  "all_params no_sparse (scenario 1 (Some (scenario_state 0 0 (1 / 10000)))) \<and>
   update_hessian_of Base (scenario 1 (Some (scenario_state 0 0 (1 / 10000)))) =
     Ok (scenario 1 (Some (scenario_state 0 0 (199 / 1000000)))) \<and>
   list_all2 (\<lambda>g g'. list_all2 (hessian_updated (snd (group_betas g)))
       (group_params g) (group_params g'))
     (param_groups (scenario 1 (Some (scenario_state 0 0 (1 / 10000)))))
     (param_groups (scenario 1 (Some (scenario_state 0 0 (199 / 1000000)))))"
proof -
  have 0: "all_params no_sparse (scenario 1 (Some (scenario_state 0 0 (1 / 10000))))"
    by (simp add: all_params_def no_sparse_def scenario_def scenario_param_def
        make_optimizer_def)
  have 1: "update_hessian_of Base (scenario 1 (Some (scenario_state 0 0 (1 / 10000)))) =
     Ok (scenario 1 (Some (scenario_state 0 0 (199 / 1000000))))"
    by (simp add: SophiaG_update_hessian_def scenario_def scenario_param_def scenario_state_def
        make_optimizer_def update_hessian_defs state_defs tensor_defs)
  from 0 1
    update_hessian_frame [where v = Base
      and opt = "scenario 1 (Some (scenario_state 0 0 (1 / 10000)))"
      and opt' = "scenario 1 (Some (scenario_state 0 0 (199 / 1000000)))"]
  show ?thesis by blast
qed

subsection \<open>What an iteration of a kernel returns\<close>

lemma base_iter_Ok:
  assumes "single_tensor_sophiag_iter beta1 beta2 rho lr weight_decay maximize capturable bs
      (param, g, m, hess, s) = Ok (param', m', s')"
  shows "m' = iadd (imul m beta1) (if \<not> maximize then g else neg g) (1 - beta1)"
    and "s' = iadd_scalar s 1"
    and "param' = iaddcmul (imul param (1 - lr * weight_decay)) (sign m')
        (ratio_of rho (bs_value bs) 1 m' hess)
        (- (lr * max (1 / 1000) (rms_norm (imul param (1 - lr * weight_decay)))))"
  using assms
  by (auto simp: single_tensor_sophiag_iter_def Let_def split: option.splits if_splits)

lemma rms_iter_Ok:
  assumes "single_tensor_sophiag_rms_iter beta1 beta2 rho lr weight_decay maximize capturable bs
      (param, g, m, rms, hess, s) = Ok (param', m', rms', s')"
  shows "m' = iadd (imul m beta1) (if \<not> maximize then g else neg g) (1 - beta1)"
    and "s' = iadd_scalar s 1"
    and "param' = iaddcmul (imul param (1 - lr * weight_decay)) (sign m')
        (ratio_of rho (bs_value bs)
           (max (1 / 100000) (rms_norm (imul param (1 - lr * weight_decay)))) m' hess)
        (- lr)"
  using assms
  by (auto simp: single_tensor_sophiag_rms_iter_def Let_def split: option.splits if_splits)

lemma og_iter_Ok:
  assumes "single_tensor_sophiag_og_iter beta1 beta2 rho lr weight_decay maximize capturable bs
      (param, g, m, rms, hess, s) = Ok (param', m', rms', s')"
  shows "m' = iadd (imul m beta1) (if \<not> maximize then g else neg g) (1 - beta1)"
    and "s' = iadd_scalar s 1"
    and "param' = iaddcmul (imul param (1 - lr * weight_decay)) (sign m')
        (ratio_of rho (bs_value bs) 1 m' hess) (- lr)"
  using assms
  by (auto simp: single_tensor_sophiag_og_iter_def Let_def split: option.splits if_splits)

lemma iter_returns:
  "\<exists>r. single_tensor_sophiag_iter beta1 beta2 rho lr weight_decay maximize False bs
      (param, g, m, hess, s) = Ok r"
  "\<exists>r. single_tensor_sophiag_rms_iter beta1 beta2 rho lr weight_decay maximize False bs
      (param, g, m, rms, hess, s) = Ok r"
  "\<exists>r. single_tensor_sophiag_og_iter beta1 beta2 rho lr weight_decay maximize False bs
      (param, g, m, rms, hess, s) = Ok r"
  by (simp_all add: single_tensor_sophiag_iter_def single_tensor_sophiag_rms_iter_def
      single_tensor_sophiag_og_iter_def Let_def)

subsection \<open>What a step that returns has done\<close>

lemma for_each_st_Ok:
  assumes "for_each_st f s xs = Ok (ys, s')" and "I s"
    and step: "\<And>s x y s'. I s \<Longrightarrow> f s x = Ok (y, s') \<Longrightarrow> I s'"
  shows "list_all2 (\<lambda>x y. \<exists>s1 s2. I s1 \<and> f s1 x = Ok (y, s2)) xs ys \<and> I s'"
  using assms(1,2)
proof (induction xs arbitrary: s ys)
  case Nil
  then show ?case by simp
next
  case (Cons x xs)
  from Cons.prems(1) obtain y s1 where fx: "f s x = Ok (y, s1)"
    by (cases "f s x") (auto split: prod.splits)
  with Cons.prems(1) obtain ys1 where rest: "for_each_st f s1 xs = Ok (ys1, s')"
    and ys: "ys = y # ys1"
    by (cases "for_each_st f s1 xs") (auto split: prod.splits)
  have "I s1" by (rule step [OF Cons.prems(2) fx])
  from Cons.IH [OF rest this] fx ys Cons.prems(2) show ?case by auto
qed

lemma filled_rms: "iadd_scalar (isub r r) x = filled r x"
proof -
  have "map (\<lambda>y. y + x) (map2 (\<lambda>x y. x - y) xs xs) = replicate (length xs) x" for xs :: "real list"
    by (induction xs) simp_all
  then show ?thesis by (simp add: iadd_scalar_def isub_def filled_def)
qed

lemma ensure_state_hessian:
  assumes "\<And>c t. state_hessian (init c t) = Some (zeros_like t)"
  shows "state_hessian (ensure_state init c p) =
    Some (hessian_buffer (p_data p) (ensure_state init c p))"
  using assms [of c "p_data p"]
  by (auto simp: ensure_state_def backfill_hessian_def hessian_buffer_def split: option.splits)

lemma variant_init_hessian: "state_hessian (variant_init v c t) = Some (zeros_like t)"
  by (cases v) (simp_all add: variant_init_def init_state_hessian init_state_rms_hessian)

lemma collect_param_Ok:
  assumes "collect_param c s p = Ok (p1, s')"
  shows "bs_value s' = bs_value s"
    and "case p_grad p of None \<Rightarrow> p1 = p | Some (Sparse gt) \<Rightarrow> False
         | Some (Dense gt) \<Rightarrow> p1 = p\<lparr>p_state := Some (ensure_state init_state c p)\<rparr>"
  using assms
  by (auto simp: collect_param_def Let_def split: option.splits grad.splits if_splits)

lemma collect_param_rms_Ok:
  assumes "collect_param_rms c s p = Ok (p1, s')"
  shows "bs_value s' = bs_value s"
    and "case p_grad p of None \<Rightarrow> p1 = p | Some (Sparse gt) \<Rightarrow> False
         | Some (Dense gt) \<Rightarrow> p1 = p\<lparr>p_state := Some (ensure_state init_state_rms c p)\<rparr> \<and>
             state_rms (ensure_state init_state_rms c p) \<noteq> None"
  using assms
  by (auto simp: collect_param_rms_def Let_def split: option.splits grad.splits if_splits)


lemma map_result_Ok: "map_result f r = Ok y \<Longrightarrow> \<exists>x. r = Ok x \<and> y = f x"
  by (cases r) auto

lemma base_param_stepped:
  assumes s: "bs_value s = bs" and col: "collect_param c s p = Ok (p1, s')"
    and b: "bs_value b = bs"
    and k: "on_param (single_tensor_sophiag_iter (fst (group_betas g)) (snd (group_betas g))
        (group_rho g) (group_lr g) (group_weight_decay g) (group_maximize g)
        (group_capturable g) b) p1 = Ok p'"
  shows "stepped Base c bs g p p'"
proof (cases "p_grad p")
  case None
  with collect_param_Ok(2) [OF col] k show ?thesis
    by (simp add: stepped_def on_param_def)
next
  case (Some gr)
  show ?thesis
  proof (cases gr)
    case (Sparse gt)
    with Some collect_param_Ok(2) [OF col] show ?thesis by simp
  next
    case (Dense gt)
    let ?st = "ensure_state init_state c p"
    let ?h = "hessian_buffer (p_data p) ?st"
    from Some Dense collect_param_Ok(2) [OF col] have p1: "p1 = p\<lparr>p_state := Some ?st\<rparr>"
      by simp
    have h: "state_hessian ?st = Some ?h"
      by (rule ensure_state_hessian [OF init_state_hessian])
    from k p1 Some Dense h obtain param' m' s'' where
      it: "single_tensor_sophiag_iter (fst (group_betas g)) (snd (group_betas g))
        (group_rho g) (group_lr g) (group_weight_decay g) (group_maximize g)
        (group_capturable g) b (p_data p, gt, state_exp_avg ?st, ?h, state_step ?st)
        = Ok (param', m', s'')"
      and p': "p' = p1\<lparr>p_data := param',
          p_state := Some (?st\<lparr>state_exp_avg := m', state_step := s''\<rparr>)\<rparr>"
      by (auto simp: on_param_def dest!: map_result_Ok)
    from base_iter_Ok [OF it] p' p1 Some Dense b show ?thesis
      by (simp add: stepped_def variant_init_def decayed_def momentum_def coefficient_def
          clamp_bound_def rms_after_def Let_def)
  qed
qed

lemma rms_param_stepped:
  assumes s: "bs_value s = bs" and col: "collect_param_rms c s p = Ok (p1, s')"
    and b: "bs_value b = bs"
    and k: "on_param_rms (single_tensor_sophiag_rms_iter (fst (group_betas g))
        (snd (group_betas g)) (group_rho g) (group_lr g) (group_weight_decay g)
        (group_maximize g) (group_capturable g) b) p1 = Ok p'"
  shows "stepped RMS c bs g p p' \<and> stepped RMSD c bs g p p'"
proof (cases "p_grad p")
  case None
  with collect_param_rms_Ok(2) [OF col] k show ?thesis
    by (simp add: stepped_def on_param_rms_def)
next
  case (Some gr)
  show ?thesis
  proof (cases gr)
    case (Sparse gt)
    with Some collect_param_rms_Ok(2) [OF col] show ?thesis by simp
  next
    case (Dense gt)
    let ?st = "ensure_state init_state_rms c p"
    let ?h = "hessian_buffer (p_data p) ?st"
    from Some Dense collect_param_rms_Ok(2) [OF col]
    have p1: "p1 = p\<lparr>p_state := Some ?st\<rparr>" and "state_rms ?st \<noteq> None"
      by simp_all
    then obtain r where r: "state_rms ?st = Some r" by auto
    have h: "state_hessian ?st = Some ?h"
      by (rule ensure_state_hessian [OF init_state_rms_hessian])
    from k p1 Some Dense h r obtain param' m' r' s'' where
      it: "single_tensor_sophiag_rms_iter (fst (group_betas g)) (snd (group_betas g))
        (group_rho g) (group_lr g) (group_weight_decay g) (group_maximize g)
        (group_capturable g) b (p_data p, gt, state_exp_avg ?st, r, ?h, state_step ?st)
        = Ok (param', m', r', s'')"
      and p': "p' = p1\<lparr>p_data := param',
          p_state := Some (?st\<lparr>state_exp_avg := m', state_rms := Some r',
            state_step := s''\<rparr>)\<rparr>"
      by (auto simp: on_param_rms_def dest!: map_result_Ok)
    from it have r': "r' = filled r (step_size_rel (decayed g p))"
      by (auto simp: single_tensor_sophiag_rms_iter_def Let_def filled_rms step_size_rel_def
          decayed_def split: option.splits if_splits)
    from rms_iter_Ok [OF it] r' p' p1 Some Dense b r show ?thesis
      by (simp add: stepped_def variant_init_def decayed_def momentum_def coefficient_def
          clamp_bound_def rms_after_def step_size_rel_def Let_def)
  qed
qed

lemma og_param_stepped:
  assumes s: "bs_value s = bs" and col: "collect_param_rms c s p = Ok (p1, s')"
    and b: "bs_value b = bs"
    and k: "on_param_rms (single_tensor_sophiag_og_iter (fst (group_betas g))
        (snd (group_betas g)) (group_rho g) (group_lr g) (group_weight_decay g)
        (group_maximize g) (group_capturable g) b) p1 = Ok p'"
  shows "stepped OG c bs g p p'"
proof (cases "p_grad p")
  case None
  with collect_param_rms_Ok(2) [OF col] k show ?thesis
    by (simp add: stepped_def on_param_rms_def)
next
  case (Some gr)
  show ?thesis
  proof (cases gr)
    case (Sparse gt)
    with Some collect_param_rms_Ok(2) [OF col] show ?thesis by simp
  next
    case (Dense gt)
    let ?st = "ensure_state init_state_rms c p"
    let ?h = "hessian_buffer (p_data p) ?st"
    from Some Dense collect_param_rms_Ok(2) [OF col]
    have p1: "p1 = p\<lparr>p_state := Some ?st\<rparr>" and "state_rms ?st \<noteq> None"
      by simp_all
    then obtain r where r: "state_rms ?st = Some r" by auto
    have h: "state_hessian ?st = Some ?h"
      by (rule ensure_state_hessian [OF init_state_rms_hessian])
    from k p1 Some Dense h r obtain param' m' r' s'' where
      it: "single_tensor_sophiag_og_iter (fst (group_betas g)) (snd (group_betas g))
        (group_rho g) (group_lr g) (group_weight_decay g) (group_maximize g)
        (group_capturable g) b (p_data p, gt, state_exp_avg ?st, r, ?h, state_step ?st)
        = Ok (param', m', r', s'')"
      and p': "p' = p1\<lparr>p_data := param',
          p_state := Some (?st\<lparr>state_exp_avg := m', state_rms := Some r',
            state_step := s''\<rparr>)\<rparr>"
      by (auto simp: on_param_rms_def dest!: map_result_Ok)
    from it have r': "r' = filled r (step_size_rel (decayed g p))"
      by (auto simp: single_tensor_sophiag_og_iter_def Let_def filled_rms step_size_rel_def
          decayed_def split: option.splits if_splits)
    from og_iter_Ok [OF it] r' p' p1 Some Dense b r show ?thesis
      by (simp add: stepped_def variant_init_def decayed_def momentum_def coefficient_def
          clamp_bound_def rms_after_def step_size_rel_def Let_def)
  qed
qed


lemma step_group_Ok:
  assumes sg: "step_group collect dispatch c s g = Ok (g', s')"
    and s: "bs_value s = bs"
    and col: "\<And>s p p1 s'. collect c s p = Ok (p1, s') \<Longrightarrow> bs_value s' = bs_value s"
    and dis: "\<And>ps b. dispatch ps b (fst (group_betas g)) (snd (group_betas g)) (group_rho g)
        (group_lr g) (group_weight_decay g) (group_maximize g) (group_capturable g) =
        for_each (kern b) ps"
    and par: "\<And>s p p1 s' b p'. bs_value s = bs \<Longrightarrow> collect c s p = Ok (p1, s') \<Longrightarrow>
        bs_value b = bs \<Longrightarrow> kern b p1 = Ok p' \<Longrightarrow> R p p'"
  shows "g' = g\<lparr>group_params := group_params g'\<rparr> \<and>
    list_all2 R (group_params g) (group_params g') \<and> bs_value s' = bs"
proof -
  from sg obtain ps b where c1: "for_each_st (collect c) s (group_params g) = Ok (ps, b)"
    by (cases "for_each_st (collect c) s (group_params g)")
      (auto simp: step_group_def split: prod.splits)
  with sg obtain ps' where d1: "for_each (kern b) ps = Ok ps'"
    and g': "g' = g\<lparr>group_params := ps'\<rparr>" and s': "s' = b"
    by (cases "for_each (kern b) ps") (auto simp: step_group_def dis)
  have inv: "bs_value s2 = bs" if "bs_value s1 = bs" "collect c s1 x = Ok (y, s2)"
    for s1 x y s2
    using that col [of s1 x y s2] by simp
  have "list_all2 (\<lambda>x y. \<exists>s1 s2. bs_value s1 = bs \<and> collect c s1 x = Ok (y, s2))
      (group_params g) ps \<and> bs_value b = bs"
  proof (rule for_each_st_Ok [where I = "\<lambda>s. bs_value s = bs", OF c1 s])
    fix s1 x y s2
    assume "bs_value s1 = bs" "collect c s1 x = Ok (y, s2)"
    then show "bs_value s2 = bs" by (rule inv)
  qed
  then have l1: "list_all2 (\<lambda>x y. \<exists>s1 s2. bs_value s1 = bs \<and> collect c s1 x = Ok (y, s2))
      (group_params g) ps" and b: "bs_value b = bs"
    by simp_all
  have l2: "list_all2 (\<lambda>x y. kern b x = Ok y) ps ps'"
    by (rule for_each_Ok [OF d1])
  have "list_all2 R (group_params g) ps'"
  proof (rule list_all2_trans [OF _ l1 l2])
    fix p p1 p'
    assume "\<exists>s1 s2. bs_value s1 = bs \<and> collect c s1 p = Ok (p1, s2)" and "kern b p1 = Ok p'"
    with b par show "R p p'" by blast
  qed
  with g' s' b show ?thesis by simp
qed

lemma step_with_Ok:
  assumes sw: "step_with collect dispatch opt bs = Ok opt'"
    and col: "\<And>c s p p1 s'. collect c s p = Ok (p1, s') \<Longrightarrow> bs_value s' = bs_value s"
    and dis: "\<And>g ps b. dispatch ps b (fst (group_betas g)) (snd (group_betas g)) (group_rho g)
        (group_lr g) (group_weight_decay g) (group_maximize g) (group_capturable g) =
        for_each (kern g b) ps"
    and par: "\<And>g s p p1 s' b p'. bs_value s = bs \<Longrightarrow>
        collect (defaults_capturable opt) s p = Ok (p1, s') \<Longrightarrow>
        bs_value b = bs \<Longrightarrow> kern g b p1 = Ok p' \<Longrightarrow> R g p p'"
  shows "opt' = opt\<lparr>param_groups := param_groups opt'\<rparr> \<and>
    list_all2 (\<lambda>g g'. g' = g\<lparr>group_params := group_params g'\<rparr> \<and>
        list_all2 (R g) (group_params g) (group_params g'))
      (param_groups opt) (param_groups opt')"
proof -
  let ?c = "defaults_capturable opt"
  let ?f = "step_group collect dispatch ?c"
  from sw obtain gs b where f: "for_each_st ?f (BsNum bs) (param_groups opt) = Ok (gs, b)"
    and opt': "opt' = opt\<lparr>param_groups := gs\<rparr>"
    by (cases "for_each_st ?f (BsNum bs) (param_groups opt)")
      (auto simp: step_with_def split: prod.splits)
  have grp: "g' = g\<lparr>group_params := group_params g'\<rparr> \<and>
      list_all2 (R g) (group_params g) (group_params g') \<and> bs_value s' = bs"
    if "bs_value s = bs" "?f s g = Ok (g', s')" for s g g' s'
    by (rule step_group_Ok [of collect dispatch ?c s g g' s' bs "kern g" "R g",
          OF that(2) that(1) col dis par])
  have inv: "bs_value s' = bs" if "bs_value s = bs" "?f s g = Ok (g', s')" for s g g' s'
    using grp [OF that] by simp
  have 0: "bs_value (BsNum bs) = bs" by simp
  have "list_all2 (\<lambda>x y. \<exists>s1 s2. bs_value s1 = bs \<and> ?f s1 x = Ok (y, s2))
      (param_groups opt) gs \<and> bs_value b = bs"
  proof (rule for_each_st_Ok [where I = "\<lambda>s. bs_value s = bs", OF f 0])
    fix s1 x y s2
    assume "bs_value s1 = bs" "?f s1 x = Ok (y, s2)"
    then show "bs_value s2 = bs" by (rule inv)
  qed
  then have "list_all2 (\<lambda>x y. \<exists>s1 s2. bs_value s1 = bs \<and> ?f s1 x = Ok (y, s2))
      (param_groups opt) gs"
    by simp
  then have "list_all2 (\<lambda>g g'. g' = g\<lparr>group_params := group_params g'\<rparr> \<and>
        list_all2 (R g) (group_params g) (group_params g')) (param_groups opt) gs"
    by (rule list_all2_mono) (use grp in blast)
  with opt' show ?thesis by simp
qed

lemma step_of_stepped:
  assumes "step_of v opt bs = Ok opt'"
  shows "stepped_opt v bs opt opt'"
proof (cases v)
  case Base
  with assms have sw: "step_with collect_param sophiag opt bs = Ok opt'"
    by (simp add: SophiaG_step_def)
  show ?thesis
    unfolding stepped_opt_def Base
    by (rule step_with_Ok [of collect_param sophiag opt bs opt'
          "\<lambda>g b. on_param (single_tensor_sophiag_iter (fst (group_betas g)) (snd (group_betas g))
            (group_rho g) (group_lr g) (group_weight_decay g) (group_maximize g)
            (group_capturable g) b)"
          "stepped Base (defaults_capturable opt) bs", OF sw])
      (erule collect_param_Ok(1), simp add: sophiag_def single_tensor_sophiag_def,
        erule (3) base_param_stepped)
next
  case RMS
  with assms have sw: "step_with collect_param_rms sophiag_rms opt bs = Ok opt'"
    by (simp add: SophiaG_RMS_step_def)
  show ?thesis
    unfolding stepped_opt_def RMS
    by (rule step_with_Ok [of collect_param_rms sophiag_rms opt bs opt'
          "\<lambda>g b. on_param_rms (single_tensor_sophiag_rms_iter (fst (group_betas g))
            (snd (group_betas g)) (group_rho g) (group_lr g) (group_weight_decay g)
            (group_maximize g) (group_capturable g) b)"
          "stepped RMS (defaults_capturable opt) bs", OF sw])
      (erule collect_param_rms_Ok(1), simp add: sophiag_rms_def single_tensor_sophiag_rms_def,
        rule conjunct1, erule (3) rms_param_stepped)
next
  case OG
  with assms have sw: "step_with collect_param_rms sophiag_og opt bs = Ok opt'"
    by (simp add: SophiaG_OG_step_def)
  show ?thesis
    unfolding stepped_opt_def OG
    by (rule step_with_Ok [of collect_param_rms sophiag_og opt bs opt'
          "\<lambda>g b. on_param_rms (single_tensor_sophiag_og_iter (fst (group_betas g))
            (snd (group_betas g)) (group_rho g) (group_lr g) (group_weight_decay g)
            (group_maximize g) (group_capturable g) b)"
          "stepped OG (defaults_capturable opt) bs", OF sw])
      (erule collect_param_rms_Ok(1), simp add: sophiag_og_def single_tensor_sophiag_og_def,
        erule (3) og_param_stepped)
next
  case RMSD
  with assms have sw: "step_with collect_param_rms sophiag_rmsd opt bs = Ok opt'"
    by (simp add: SophiaG_RMSD_step_def)
  show ?thesis
    unfolding stepped_opt_def RMSD
    by (rule step_with_Ok [of collect_param_rms sophiag_rmsd opt bs opt'
          "\<lambda>g b. on_param_rms (single_tensor_sophiag_rms_iter (fst (group_betas g))
            (snd (group_betas g)) (group_rho g) (group_lr g) (group_weight_decay g)
            (group_maximize g) (group_capturable g) b)"
          "stepped RMSD (defaults_capturable opt) bs", OF sw])
      (erule collect_param_rms_Ok(1), simp add: sophiag_rmsd_def single_tensor_sophiag_rms_def,
        rule conjunct2, erule (3) rms_param_stepped)
qed

subsection \<open>When a step returns\<close>

lemma for_each_st_returns:
  assumes "list_all P xs" and "\<And>s x. P x \<Longrightarrow> \<exists>y s'. f s x = Ok (y, s')"
  shows "\<exists>ys s'. for_each_st f s xs = Ok (ys, s')"
  using assms(1)
proof (induction xs arbitrary: s)
  case Nil
  then show ?case by simp
next
  case (Cons x xs)
  then have "P x" and xs: "list_all P xs" by simp_all
  from assms(2) [OF \<open>P x\<close>] obtain y s1 where fx: "f s x = Ok (y, s1)" by blast
  from Cons.IH [OF xs] obtain ys s' where "for_each_st f s1 xs = Ok (ys, s')" by blast
  with fx show ?case by simp
qed

lemma on_param_returns:
  "\<exists>p'. on_param (single_tensor_sophiag_iter b1 b2 rho lr wd mx False b) p = Ok p'"
proof -
  have "\<exists>y. map_result f (single_tensor_sophiag_iter b1 b2 rho lr wd mx False b
      (param, g, m, hess, s)) = Ok y" for f :: "tensor \<times> tensor \<times> tensor \<Rightarrow> param"
      and param g m hess s
    using iter_returns(1) [of b1 b2 rho lr wd mx b param g m hess s] by auto
  then show ?thesis
    by (simp add: on_param_def split: option.splits grad.splits)
qed

lemma on_param_rms_returns:
  "\<exists>p'. on_param_rms (single_tensor_sophiag_rms_iter b1 b2 rho lr wd mx False b) p = Ok p'"
  "\<exists>p'. on_param_rms (single_tensor_sophiag_og_iter b1 b2 rho lr wd mx False b) p = Ok p'"
proof -
  have 1: "\<exists>y. map_result f (single_tensor_sophiag_rms_iter b1 b2 rho lr wd mx False b
      (param, g, m, rms, hess, s)) = Ok y"
    for f :: "tensor \<times> tensor \<times> tensor \<times> tensor \<Rightarrow> param" and param g m rms hess s
    using iter_returns(2) [of b1 b2 rho lr wd mx b param g m rms hess s] by auto
  have 2: "\<exists>y. map_result f (single_tensor_sophiag_og_iter b1 b2 rho lr wd mx False b
      (param, g, m, rms, hess, s)) = Ok y"
    for f :: "tensor \<times> tensor \<times> tensor \<times> tensor \<Rightarrow> param" and param g m rms hess s
    using iter_returns(3) [of b1 b2 rho lr wd mx b param g m rms hess s] by auto
  from 1 show "\<exists>p'. on_param_rms (single_tensor_sophiag_rms_iter b1 b2 rho lr wd mx False b) p
      = Ok p'"
    by (simp add: on_param_rms_def split: option.splits grad.splits)
  from 2 show "\<exists>p'. on_param_rms (single_tensor_sophiag_og_iter b1 b2 rho lr wd mx False b) p
      = Ok p'"
    by (simp add: on_param_rms_def split: option.splits grad.splits)
qed

lemma collect_param_returns:
  "no_sparse p \<Longrightarrow> \<exists>y s'. collect_param c s p = Ok (y, s')"
  by (simp add: collect_param_def no_sparse_def Let_def split: option.splits grad.splits)

lemma collect_param_rms_returns:
  assumes "no_sparse p \<and> rms_present v p" and "v \<noteq> Base"
  shows "\<exists>y s'. collect_param_rms c s p = Ok (y, s')"
proof -
  from assms have "state_rms (ensure_state init_state_rms c p) \<noteq> None"
    by (auto simp: rms_present_def ensure_state_def backfill_hessian_def init_state_rms_def
        split: option.splits)
  then obtain r where "state_rms (ensure_state init_state_rms c p) = Some r" by blast
  then show ?thesis
    using assms(1)
    by (cases c; cases "p_grad p")
      (simp_all add: collect_param_rms_def no_sparse_def Let_def split: grad.splits)
qed

lemma step_group_returns:
  assumes ps: "list_all P (group_params g)"
    and col: "\<And>s p. P p \<Longrightarrow> \<exists>y s'. collect c s p = Ok (y, s')"
    and dis: "\<And>ps b. \<exists>ps'. dispatch ps b (fst (group_betas g)) (snd (group_betas g))
        (group_rho g) (group_lr g) (group_weight_decay g) (group_maximize g)
        (group_capturable g) = Ok ps'"
  shows "\<exists>g' s'. step_group collect dispatch c s g = Ok (g', s')"
proof -
  from for_each_st_returns [of P "group_params g" "collect c" s, OF ps col]
  obtain ps1 b where 1: "for_each_st (collect c) s (group_params g) = Ok (ps1, b)" by blast
  from dis [of ps1 b] obtain ps' where "dispatch ps1 b (fst (group_betas g))
      (snd (group_betas g)) (group_rho g) (group_lr g) (group_weight_decay g) (group_maximize g)
      (group_capturable g) = Ok ps'" by blast
  with 1 show ?thesis by (simp add: step_group_def)
qed

lemma step_with_returns:
  assumes gs: "list_all (\<lambda>g. \<not> group_capturable g \<and> list_all P (group_params g))
      (param_groups opt)"
    and col: "\<And>c s p. P p \<Longrightarrow> \<exists>y s'. collect c s p = Ok (y, s')"
    and dis: "\<And>ps b b1 b2 rho lr wd mx. \<exists>ps'. dispatch ps b b1 b2 rho lr wd mx False = Ok ps'"
  shows "\<exists>opt'. step_with collect dispatch opt bs = Ok opt'"
proof -
  let ?G = "\<lambda>g. \<not> group_capturable g \<and> list_all P (group_params g)"
  have grp: "\<exists>g' s'. step_group collect dispatch (defaults_capturable opt) s g = Ok (g', s')"
    if "?G g" for s g
  proof (rule step_group_returns [of P])
    from that show "list_all P (group_params g)" by simp
    show "\<exists>y s'. collect (defaults_capturable opt) s p = Ok (y, s')" if "P p" for s p
      using that by (rule col)
    from that have "group_capturable g = False" by simp
    then show "\<exists>ps'. dispatch ps b (fst (group_betas g)) (snd (group_betas g))
        (group_rho g) (group_lr g) (group_weight_decay g) (group_maximize g)
        (group_capturable g) = Ok ps'" for ps b
      using dis by simp
  qed
  from for_each_st_returns [of ?G "param_groups opt"
      "step_group collect dispatch (defaults_capturable opt)" "BsNum bs", OF gs grp]
  show ?thesis by (auto simp: step_with_def)
qed

lemma dispatch_returns:
  "\<exists>ps'. sophiag ps b b1 b2 rho lr wd mx False = Ok ps'"
  "\<exists>ps'. sophiag_rms ps b b1 b2 rho lr wd mx False = Ok ps'"
  "\<exists>ps'. sophiag_og ps b b1 b2 rho lr wd mx False = Ok ps'"
  "\<exists>ps'. sophiag_rmsd ps b b1 b2 rho lr wd mx False = Ok ps'"
  by (simp_all add: sophiag_def sophiag_rms_def sophiag_og_def sophiag_rmsd_def
      single_tensor_sophiag_def single_tensor_sophiag_rms_def single_tensor_sophiag_og_def
      for_each_returns list_all_iff on_param_returns on_param_rms_returns)

lemma step_of_returns:
  assumes "step_ready v opt"
  shows "\<exists>opt'. step_of v opt bs = Ok opt'"
proof (cases v)
  case Base
  from assms have "list_all (\<lambda>g. \<not> group_capturable g \<and> list_all no_sparse (group_params g))
      (param_groups opt)"
    by (simp add: step_ready_def list_all_iff)
  then have "\<exists>opt'. step_with collect_param sophiag opt bs = Ok opt'"
    by (rule step_with_returns) (simp_all add: collect_param_returns dispatch_returns)
  with Base show ?thesis by (simp add: SophiaG_step_def)
next
  case RMS
  then have v: "v \<noteq> Base" by simp
  from assms have "\<exists>opt'. step_with collect_param_rms sophiag_rms opt bs = Ok opt'"
    unfolding step_ready_def
    by (rule step_with_returns)
      (simp_all add: collect_param_rms_returns [OF _ v] dispatch_returns)
  with RMS show ?thesis by (simp add: SophiaG_RMS_step_def)
next
  case OG
  then have v: "v \<noteq> Base" by simp
  from assms have "\<exists>opt'. step_with collect_param_rms sophiag_og opt bs = Ok opt'"
    unfolding step_ready_def
    by (rule step_with_returns)
      (simp_all add: collect_param_rms_returns [OF _ v] dispatch_returns)
  with OG show ?thesis by (simp add: SophiaG_OG_step_def)
next
  case RMSD
  then have v: "v \<noteq> Base" by simp
  from assms have "\<exists>opt'. step_with collect_param_rms sophiag_rmsd opt bs = Ok opt'"
    unfolding step_ready_def
    by (rule step_with_returns)
      (simp_all add: collect_param_rms_returns [OF _ v] dispatch_returns)
  with RMSD show ?thesis by (simp add: SophiaG_RMSD_step_def)
qed

subsection \<open>The coefficient of the signed update\<close>

text \<open>
  C4, as amended. For each of the four classes, \<open>step\<close> returns when no group is
  capturable, no gradient is sparse and the states of the classes with \<open>rms\<close> have
  that key. Whenever \<open>step\<close> returns, every parameter with a gradient is the decayed
  parameter minus \<open>coefficient * sign(momentum) * ratio\<close>, where the coefficient is
  \<open>lr * max(1e-3, rms(parameter))\<close> for \<open>SophiaG\<close>, with the rms
  \<open>||parameter||\<^sub>2 / sqrt(numel)\<close> of the decayed parameter, and \<open>lr\<close> for
  \<open>SophiaG_RMS\<close>, \<open>SophiaG_OG\<close> and \<open>SophiaG_RMSD\<close>; there
  \<open>max(1e-5, rms(parameter))\<close> is the clamp bound of the ratio (\<open>SophiaG_RMS\<close>,
  \<open>SophiaG_RMSD\<close>; the bound is 1 for \<open>SophiaG\<close> and \<open>SophiaG_OG\<close>) and is stored
  in the \<open>rms\<close> buffer (all three); the momentum and the step counter are updated and
  nothing else changes.
\<close>

theorem step_applies_coefficient:
  "(step_ready v opt \<longrightarrow> (\<exists>opt'. step_of v opt bs = Ok opt')) \<and>
   (step_of v opt bs = Ok opt' \<longrightarrow> stepped_opt v bs opt opt')"
  by (intro conjI impI; erule step_of_returns step_of_stepped)

theorem step_applies_coefficient_witness:
  "step_ready OG (rmsd_scenario 2 (Some (rms_state 0 0 0 0))) \<and>
   step_of OG (rmsd_scenario 2 (Some (rms_state 0 0 0 0))) 5120 =
     Ok (rmsd_scenario (199998 / 100000 - 1 / 10000)
           (Some (rms_state 1 (1 / 100) 0 (199998 / 100000)))) \<and>
   stepped_opt OG 5120 (rmsd_scenario 2 (Some (rms_state 0 0 0 0)))
     (rmsd_scenario (199998 / 100000 - 1 / 10000)
        (Some (rms_state 1 (1 / 100) 0 (199998 / 100000))))"
proof -
  have 0: "step_ready OG (rmsd_scenario 2 (Some (rms_state 0 0 0 0)))"
    by (simp add: step_ready_def rms_present_def no_sparse_def rmsd_scenario_def rms_state_def
        make_optimizer_def)
  have 1: "step_of OG (rmsd_scenario 2 (Some (rms_state 0 0 0 0))) 5120 =
     Ok (rmsd_scenario (199998 / 100000 - 1 / 10000)
           (Some (rms_state 1 (1 / 100) 0 (199998 / 100000))))"
    by (simp add: SophiaG_OG_step_def sophiag_og_def single_tensor_sophiag_og_def
        single_tensor_sophiag_og_iter_def rmsd_scenario_def rms_state_def make_optimizer_def
        step_defs state_defs tensor_defs ratio_defs rms_norm_single)
  from 0 1
    step_applies_coefficient [where v = OG and bs = 5120
      and opt = "rmsd_scenario 2 (Some (rms_state 0 0 0 0))"
      and opt' = "rmsd_scenario (199998 / 100000 - 1 / 10000)
           (Some (rms_state 1 (1 / 100) 0 (199998 / 100000)))"]
  show ?thesis by blast
qed

text \<open>
  C4 as it is stated fails for \<open>SophiaG_RMS\<close>: from the parameter \<open>[2]\<close> with a zero
  hessian the ratio is the clamp bound \<open>1.99998\<close> and the step takes \<open>1e-4 * 1.99998\<close>
  off the decayed parameter, not \<open>(1e-4 * 1.99998) * 1.99998\<close>.
\<close>

theorem rms_coefficient_counterexample:
  "SophiaG_RMS_step (rmsd_scenario 2 (Some (rms_state 0 0 0 0))) 5120 =
     Ok (rmsd_scenario (199998 / 100000 - 1 / 10000 * (199998 / 100000))
           (Some (rms_state 1 (1 / 100) 0 (199998 / 100000)))) \<and>
   SophiaG_RMS_step (rmsd_scenario 2 (Some (rms_state 0 0 0 0))) 5120 \<noteq>
     Ok (rmsd_scenario
           (199998 / 100000 - (1 / 10000 * (199998 / 100000)) * (199998 / 100000))
           (Some (rms_state 1 (1 / 100) 0 (199998 / 100000))))"
  by (simp add: SophiaG_RMS_step_def sophiag_rms_def single_tensor_sophiag_rms_def
      single_tensor_sophiag_rms_iter_def rmsd_scenario_def rms_state_def make_optimizer_def
      step_defs state_defs tensor_defs ratio_defs rms_norm_single)

subsection \<open>The ratio over a zero hessian\<close>

lemma fmax_pos: "1 \<le> fmax"
  by (simp add: fmax_def)

lemma to_f32_Fin: "\<bar>x\<bar> \<le> fmax \<Longrightarrow> to_f32 x = Fin x"
  by (auto simp: to_f32_def)

lemma ratio_entry_zero: "ratio_entry rho b upper x 0 = ratio_over_zero upper x"
proof -
  have "upper / 10 ^ 15 \<le> \<bar>x\<bar> \<longleftrightarrow> upper \<le> \<bar>x\<bar> * 10 ^ 15"
    by (simp add: field_simps)
  then show ?thesis
    by (auto simp: ratio_entry_def denominator_def ratio_over_zero_def min_def)
qed

lemma ratio_zero_hessian_map:
  assumes "list_all (\<lambda>h. h = 0) hs" and "length hs = length ms"
  shows "map2 (ratio_entry rho b upper) ms hs = map (ratio_over_zero upper) ms"
  using assms
proof (induction ms arbitrary: hs)
  case Nil
  then show ?case by simp
next
  case (Cons x ms)
  then obtain h hs' where hs: "hs = h # hs'" by (cases hs) simp_all
  with Cons.prems have "h = 0" by simp
  with Cons hs show ?case by (simp add: ratio_entry_zero)
qed

lemma denominator_zero:
  "list_all (\<lambda>h. h = 0) hs \<Longrightarrow> list_all (\<lambda>h. denominator rho b h = 1 / 10 ^ 15) hs"
  by (induction hs) (simp_all add: denominator_def)

lemma stepped_zero_hessian:
  assumes "stepped v c bs g p p'"
  shows "zero_hessian_stepped v c bs g p p'"
proof (cases "p_grad p")
  case None
  then show ?thesis by (simp add: zero_hessian_stepped_def)
next
  case (Some gr)
  show ?thesis
  proof (cases gr)
    case (Sparse gt)
    with Some show ?thesis by (simp add: zero_hessian_stepped_def)
  next
    case (Dense gt)
    let ?st = "ensure_state (variant_init v) c p"
    let ?m = "momentum g gt ?st"
    let ?h = "hessian_buffer (p_data p) ?st"
    let ?u = "clamp_bound v (decayed g p)"
    from assms Some Dense have p': "p_data p' = iaddcmul (decayed g p) (sign ?m)
        (ratio_of (group_rho g) bs ?u ?m ?h) (- coefficient v g (decayed g p))"
      by (simp add: stepped_def Let_def)
    have r: "ratio_of (group_rho g) bs ?u ?m ?h = map (ratio_over_zero ?u) (vals ?m)"
      if "list_all (\<lambda>x. x = 0) (vals ?h)" "length (vals ?h) = length (vals ?m)"
      using ratio_zero_hessian_map [OF that] by (simp add: ratio_of_def)
    have d: "list_all (\<lambda>x. denominator (group_rho g) bs x = 1 / 10 ^ 15) (vals ?h)"
      if "list_all (\<lambda>x. x = 0) (vals ?h)"
      using that by (rule denominator_zero)
    show ?thesis
      unfolding zero_hessian_stepped_def Some Dense Let_def
      by (simp only: option.case grad.case) (use p' r d in metis)
  qed
qed

lemma step_of_zero_hessian:
  assumes "step_of v opt bs = Ok opt'"
  shows "list_all2 (\<lambda>g g'. list_all2 (zero_hessian_stepped v (defaults_capturable opt) bs g)
        (group_params g) (group_params g')) (param_groups opt) (param_groups opt')"
proof -
  from step_of_stepped [OF assms]
  have "list_all2 (\<lambda>g g'. g' = g\<lparr>group_params := group_params g'\<rparr> \<and>
         list_all2 (stepped v (defaults_capturable opt) bs g) (group_params g) (group_params g'))
       (param_groups opt) (param_groups opt')"
    by (simp add: stepped_opt_def)
  then show ?thesis
    by (rule list_all2_mono) (auto elim!: list_all2_mono intro: stepped_zero_hessian)
qed

lemma ratio_entry_f32_zero:
  assumes "\<bar>rho * bs\<bar> \<le> fmax" and "0 \<le> upper" and "upper \<le> fmax"
  shows "ratio_entry_f32 rho bs upper (Fin x) (Fin 0) = Fin (ratio_over_zero upper x)"
proof -
  have e: "to_f32 (1 / 10 ^ 15) = Fin (1 / 10 ^ 15)"
    by (rule to_f32_Fin) (use fmax_pos in simp)
  have z: "to_f32 0 = Fin 0"
    by (rule to_f32_Fin) (use fmax_pos in simp)
  have u: "to_f32 upper = Fin upper"
    by (rule to_f32_Fin) (use assms in simp)
  have d: "f_add (f_mul (to_f32 (rho * bs)) (Fin 0)) (to_f32 (1 / 10 ^ 15)) = Fin (1 / 10 ^ 15)"
    by (simp only: to_f32_Fin [OF assms(1)] f_mul.simps mult_zero_right z f_add.simps add_0 e)
  have le: "upper / 10 ^ 15 \<le> \<bar>x\<bar> \<longleftrightarrow> upper \<le> \<bar>x\<bar> * 10 ^ 15"
    by (simp add: field_simps)
  have "0 \<le> \<bar>x\<bar> * 10 ^ 15" by simp
  with fmax_pos have nn: "\<not> \<bar>x\<bar> * 10 ^ 15 < - fmax" by linarith
  show ?thesis
  proof (cases "fmax < \<bar>x\<bar> * 10 ^ 15")
    case True
    with assms(3) have "upper \<le> \<bar>x\<bar> * 10 ^ 15" by simp
    with True show ?thesis
      unfolding ratio_entry_f32_def d u
      by (simp add: to_f32_def ratio_over_zero_def le)
  next
    case False
    with nn show ?thesis
      unfolding ratio_entry_f32_def d u
      by (auto simp: to_f32_def ratio_over_zero_def le min_def)
  qed
qed

lemma update_entry_f32_Fin:
  assumes "\<bar>k\<bar> \<le> fmax" and "\<bar>k * sgn x * r\<bar> \<le> fmax"
    and "\<bar>y + k * sgn x * r\<bar> \<le> fmax"
  shows "update_entry_f32 k (Fin y) (Fin x) (Fin r) = Fin (y + k * sgn x * r)"
proof -
  have "\<bar>k * sgn x\<bar> \<le> \<bar>k\<bar>"
    by (simp add: abs_mult sgn_real_def)
  with assms(1) have "\<bar>k * sgn x\<bar> \<le> fmax" by simp
  then show ?thesis
    by (simp add: update_entry_f32_def to_f32_Fin assms)
qed

text \<open>
  C5, as amended. For each of the four classes, whenever \<open>step\<close> returns (and it
  does under the conditions of C4), for every parameter with a dense gradient whose
  hessian buffer is all zeros, every denominator is \<open>1e-15\<close>, and the entry of the
  ratio is the clamp bound (1 for \<open>SophiaG\<close> and \<open>SophiaG_OG\<close>,
  \<open>max(1e-5, rms(parameter))\<close> for \<open>SophiaG_RMS\<close> and \<open>SophiaG_RMSD\<close>) where the
  momentum after its update is at least \<open>1e-15\<close> times the bound in absolute value,
  and \<open>|momentum| * 1e15\<close>, which is below the bound, elsewhere; the parameter is
  updated with that ratio. In float32 with infinities and NaN, when \<open>rho * bs\<close> and
  the bound are finite and the bound is not negative, that entry of the ratio is
  finite, between 0 and the bound, also when \<open>|momentum| / 1e-15\<close> overflows; and the
  updated entry of the parameter is finite whenever the exact result is in the range
  of float32.
\<close>

theorem zero_hessian_step:
  "(step_ready v opt \<longrightarrow> (\<exists>opt'. step_of v opt bs = Ok opt')) \<and>
   (step_of v opt bs = Ok opt' \<longrightarrow>
    list_all2 (\<lambda>g g'. list_all2 (zero_hessian_stepped v (defaults_capturable opt) bs g)
        (group_params g) (group_params g')) (param_groups opt) (param_groups opt')) \<and>
   (\<bar>rho * b\<bar> \<le> fmax \<and> 0 \<le> upper \<and> upper \<le> fmax \<longrightarrow>
    ratio_entry_f32 rho b upper (Fin x) (Fin 0) = Fin (ratio_over_zero upper x) \<and>
    0 \<le> ratio_over_zero upper x \<and> ratio_over_zero upper x \<le> upper) \<and>
   (\<bar>k\<bar> \<le> fmax \<and> \<bar>k * sgn x * r\<bar> \<le> fmax \<and> \<bar>y + k * sgn x * r\<bar> \<le> fmax \<longrightarrow>
    update_entry_f32 k (Fin y) (Fin x) (Fin r) = Fin (y + k * sgn x * r))"
proof (intro conjI impI; (elim conjE)?)
  assume "step_ready v opt"
  then show "\<exists>opt'. step_of v opt bs = Ok opt'" by (rule step_of_returns)
next
  assume "step_of v opt bs = Ok opt'"
  then show "list_all2 (\<lambda>g g'. list_all2 (zero_hessian_stepped v (defaults_capturable opt) bs g)
        (group_params g) (group_params g')) (param_groups opt) (param_groups opt')"
    by (rule step_of_zero_hessian)
next
  assume "\<bar>rho * b\<bar> \<le> fmax" "0 \<le> upper" "upper \<le> fmax"
  then show "ratio_entry_f32 rho b upper (Fin x) (Fin 0) = Fin (ratio_over_zero upper x)"
    by (rule ratio_entry_f32_zero)
next
  assume "0 \<le> upper"
  then show "0 \<le> ratio_over_zero upper x" by (simp add: ratio_over_zero_def)
next
  show "ratio_over_zero upper x \<le> upper"
    by (simp add: ratio_over_zero_def field_simps)
next
  assume "\<bar>k\<bar> \<le> fmax" "\<bar>k * sgn x * r\<bar> \<le> fmax" "\<bar>y + k * sgn x * r\<bar> \<le> fmax"
  then show "update_entry_f32 k (Fin y) (Fin x) (Fin r) = Fin (y + k * sgn x * r)"
    by (rule update_entry_f32_Fin)
qed


theorem zero_hessian_step_witness:
  "step_ready Base (tiny_scenario 1 None) \<and>
   step_of Base (tiny_scenario 1 None) 5120 =
     Ok (tiny_scenario (99999 / 100000 - 1 / 10000 * (99999 / 100000) * (35 / 1000))
           (Some (scenario_state 1 (35 / 10 ^ 18) 0))) \<and>
   list_all2 (\<lambda>g g'. list_all2
         (zero_hessian_stepped Base (defaults_capturable (tiny_scenario 1 None)) 5120 g)
         (group_params g) (group_params g'))
     (param_groups (tiny_scenario 1 None))
     (param_groups (tiny_scenario (99999 / 100000 - 1 / 10000 * (99999 / 100000) * (35 / 1000))
           (Some (scenario_state 1 (35 / 10 ^ 18) 0)))) \<and>
   (let g = hd (param_groups (tiny_scenario 1 None));
        p = hd (group_params g);
        st = ensure_state (variant_init Base) False p;
        h = hessian_buffer (p_data p) st;
        m = momentum g (tensor1 (1 / 10 ^ 15)) st
    in list_all (\<lambda>x. x = 0) (vals h) \<and> length (vals h) = length (vals m) \<and>
       map (ratio_over_zero (clamp_bound Base (decayed g p))) (vals m) = [35 / 1000]) \<and>
   (\<bar>4 / 100 * 5120\<bar> \<le> fmax \<and> (0::real) \<le> 1 \<and> 1 \<le> fmax) \<and>
   ratio_entry_f32 (4 / 100) 5120 1 (Fin (35 / 10 ^ 18)) (Fin 0) =
     Fin (ratio_over_zero 1 (35 / 10 ^ 18)) \<and>
   ratio_over_zero 1 (35 / 10 ^ 18) = 35 / 1000 \<and>
   (\<bar>- (1 / 10000 * (99999 / 100000))\<bar> \<le> fmax \<and>
    \<bar>- (1 / 10000 * (99999 / 100000)) * sgn (35 / 10 ^ 18) * (35 / 1000)\<bar> \<le> fmax \<and>
    \<bar>99999 / 100000 + - (1 / 10000 * (99999 / 100000)) * sgn (35 / 10 ^ 18) * (35 / 1000)\<bar>
      \<le> fmax) \<and>
   update_entry_f32 (- (1 / 10000 * (99999 / 100000))) (Fin (99999 / 100000))
       (Fin (35 / 10 ^ 18)) (Fin (35 / 1000)) =
     Fin (99999 / 100000 + - (1 / 10000 * (99999 / 100000)) * sgn (35 / 10 ^ 18) * (35 / 1000))"
proof -
  have 0: "step_ready Base (tiny_scenario 1 None)"
    by (simp add: step_ready_def rms_present_def no_sparse_def tiny_scenario_def
        make_optimizer_def)
  have 1: "step_of Base (tiny_scenario 1 None) 5120 =
     Ok (tiny_scenario (99999 / 100000 - 1 / 10000 * (99999 / 100000) * (35 / 1000))
           (Some (scenario_state 1 (35 / 10 ^ 18) 0)))"
    by (simp add: SophiaG_step_def sophiag_def single_tensor_sophiag_def
        single_tensor_sophiag_iter_def tiny_scenario_def scenario_state_def make_optimizer_def
        step_defs state_defs tensor_defs ratio_defs rms_norm_single)
  have 2: "let g = hd (param_groups (tiny_scenario 1 None));
        p = hd (group_params g);
        st = ensure_state (variant_init Base) False p;
        h = hessian_buffer (p_data p) st;
        m = momentum g (tensor1 (1 / 10 ^ 15)) st
    in list_all (\<lambda>x. x = 0) (vals h) \<and> length (vals h) = length (vals m) \<and>
       map (ratio_over_zero (clamp_bound Base (decayed g p))) (vals m) = [35 / 1000]"
    by (simp add: tiny_scenario_def make_optimizer_def variant_init_def hessian_buffer_def
        momentum_def clamp_bound_def ratio_over_zero_def state_defs tensor_defs tensor1_def
        iadd_def)
  have 3: "\<bar>4 / 100 * 5120\<bar> \<le> fmax \<and> (0::real) \<le> 1 \<and> 1 \<le> fmax"
    by (simp add: fmax_def)
  have 4: "ratio_over_zero 1 (35 / 10 ^ 18) = 35 / 1000"
    by (simp add: ratio_over_zero_def)
  have 5: "\<bar>- (1 / 10000 * (99999 / 100000))\<bar> \<le> fmax \<and>
    \<bar>- (1 / 10000 * (99999 / 100000)) * sgn (35 / 10 ^ 18) * (35 / 1000)\<bar> \<le> fmax \<and>
    \<bar>99999 / 100000 + - (1 / 10000 * (99999 / 100000)) * sgn (35 / 10 ^ 18) * (35 / 1000)\<bar>
      \<le> fmax"
    by (simp add: fmax_def)
  from 0 1 2 3 4 5
    zero_hessian_step [where v = Base and bs = 5120 and opt = "tiny_scenario 1 None"
      and opt' = "tiny_scenario (99999 / 100000 - 1 / 10000 * (99999 / 100000) * (35 / 1000))
           (Some (scenario_state 1 (35 / 10 ^ 18) 0))"
      and rho = "4 / 100" and b = 5120 and upper = 1 and x = "35 / 10 ^ 18"
      and k = "- (1 / 10000 * (99999 / 100000))" and y = "99999 / 100000"
      and r = "35 / 1000"]
  show ?thesis by blast
qed

text \<open>
  C5 as it is stated fails: from the fresh state (zero hessian) and the gradient
  \<open>[1e-15]\<close>, the momentum after its update is \<open>3.5e-17\<close>, not zero, and the ratio is
  \<open>0.035\<close>, not the clamp bound 1.
\<close>

theorem tiny_momentum_counterexample:
  "SophiaG_step (tiny_scenario 1 None) 5120 =
     Ok (tiny_scenario (99999 / 100000 - 1 / 10000 * (99999 / 100000) * (35 / 1000))
           (Some (scenario_state 1 (35 / 10 ^ 18) 0))) \<and>
   SophiaG_step (tiny_scenario 1 None) 5120 \<noteq>
     Ok (tiny_scenario (99999 / 100000 - 1 / 10000 * (99999 / 100000) * 1)
           (Some (scenario_state 1 (35 / 10 ^ 18) 0))) \<and>
   ratio_of (4 / 100) 5120 1 (tensor1 (35 / 10 ^ 18)) (tensor1 0) = [35 / 1000]"
  by (simp add: SophiaG_step_def sophiag_def single_tensor_sophiag_def
      single_tensor_sophiag_iter_def tiny_scenario_def scenario_state_def make_optimizer_def
      step_defs state_defs tensor_defs ratio_defs rms_norm_single)

subsection \<open>The shapes of the state buffers\<close>

lemma result_state_map_result: "result_state (map_result f r) = f (result_state r)"
  by (cases r) simp_all

lemma base_iter_shape:
  assumes "same_shape g param" "same_shape m param" "same_shape h param"
    and "result_state (single_tensor_sophiag_iter b1 b2 rho lr wd mx cap bs (param, g, m, h, s))
      = (param', m', s')"
  shows "same_shape param' param \<and> same_shape m' param"
  using assms
  by (auto simp: single_tensor_sophiag_iter_def Let_def same_shape_def tensor_defs ratio_defs
      split: option.splits if_splits)

lemma rms_iter_shape:
  assumes "same_shape g param" "same_shape m param" "same_shape h param" "one_entry r"
    and "result_state (single_tensor_sophiag_rms_iter b1 b2 rho lr wd mx cap bs
      (param, g, m, r, h, s)) = (param', m', r', s')"
  shows "same_shape param' param \<and> same_shape m' param \<and> one_entry r'"
  using assms
  by (auto simp: single_tensor_sophiag_rms_iter_def Let_def same_shape_def one_entry_def
      tensor_defs ratio_defs split: option.splits if_splits)

lemma og_iter_shape:
  assumes "same_shape g param" "same_shape m param" "same_shape h param" "one_entry r"
    and "result_state (single_tensor_sophiag_og_iter b1 b2 rho lr wd mx cap bs
      (param, g, m, r, h, s)) = (param', m', r', s')"
  shows "same_shape param' param \<and> same_shape m' param \<and> one_entry r'"
  using assms
  by (auto simp: single_tensor_sophiag_og_iter_def Let_def same_shape_def one_entry_def
      tensor_defs ratio_defs split: option.splits if_splits)

lemma on_param_shapes:
  assumes iter: "\<And>param g m h s param' m' s'.
      same_shape g param \<Longrightarrow> same_shape m param \<Longrightarrow> same_shape h param \<Longrightarrow>
      result_state (iter (param, g, m, h, s)) = (param', m', s') \<Longrightarrow>
      same_shape param' param \<and> same_shape m' param"
    and ok: "shapes_ok p"
  shows "shapes_ok (result_state (on_param iter p))"
proof (cases "p_grad p")
  case None
  with ok show ?thesis by (simp add: on_param_def)
next
  case (Some gr)
  show ?thesis
  proof (cases gr)
    case (Sparse gt)
    with Some ok show ?thesis by (simp add: on_param_def)
  next
    case (Dense g)
    show ?thesis
    proof (cases "p_state p")
      case None
      with Some Dense ok show ?thesis by (simp add: on_param_def)
    next
      case st: (Some st)
      show ?thesis
      proof (cases "state_hessian st")
        case None
        with Some Dense st ok show ?thesis by (simp add: on_param_def)
      next
        case h: (Some h)
        obtain param' m' s' where r: "result_state
            (iter (p_data p, g, state_exp_avg st, h, state_step st)) = (param', m', s')"
          by (cases "result_state (iter (p_data p, g, state_exp_avg st, h, state_step st))")
        from ok Some Dense st h have "same_shape g (p_data p)"
          "same_shape (state_exp_avg st) (p_data p)" "same_shape h (p_data p)"
          by (simp_all add: shapes_ok_def buffers_ok_def grad_ok_def)
        from iter [OF this r] this ok Some Dense st h r show ?thesis
          by (auto simp: on_param_def result_state_map_result shapes_ok_def buffers_ok_def
              grad_ok_def same_shape_def split: option.splits)
      qed
    qed
  qed
qed

lemma on_param_rms_shapes:
  assumes iter: "\<And>param g m r h s param' m' r' s'.
      same_shape g param \<Longrightarrow> same_shape m param \<Longrightarrow> same_shape h param \<Longrightarrow> one_entry r \<Longrightarrow>
      result_state (iter (param, g, m, r, h, s)) = (param', m', r', s') \<Longrightarrow>
      same_shape param' param \<and> same_shape m' param \<and> one_entry r'"
    and ok: "shapes_ok p"
  shows "shapes_ok (result_state (on_param_rms iter p))"
proof (cases "p_grad p")
  case None
  with ok show ?thesis by (simp add: on_param_rms_def)
next
  case (Some gr)
  show ?thesis
  proof (cases gr)
    case (Sparse gt)
    with Some ok show ?thesis by (simp add: on_param_rms_def)
  next
    case (Dense g)
    show ?thesis
    proof (cases "p_state p")
      case None
      with Some Dense ok show ?thesis by (simp add: on_param_rms_def)
    next
      case st: (Some st)
      show ?thesis
      proof (cases "state_hessian st")
        case None
        with Some Dense st ok show ?thesis by (simp add: on_param_rms_def)
      next
        case h: (Some h)
        show ?thesis
        proof (cases "state_rms st")
          case None
          with Some Dense st h ok show ?thesis by (simp add: on_param_rms_def)
        next
          case rm: (Some rm)
          obtain param' m' r' s' where r: "result_state
              (iter (p_data p, g, state_exp_avg st, rm, h, state_step st)) = (param', m', r', s')"
            by (cases "result_state (iter (p_data p, g, state_exp_avg st, rm, h, state_step st))")
          from ok Some Dense st h rm have "same_shape g (p_data p)"
            "same_shape (state_exp_avg st) (p_data p)" "same_shape h (p_data p)" "one_entry rm"
            by (simp_all add: shapes_ok_def buffers_ok_def grad_ok_def)
          from iter [OF this r] this ok Some Dense st h rm r show ?thesis
            by (auto simp: on_param_rms_def result_state_map_result shapes_ok_def buffers_ok_def
                grad_ok_def same_shape_def split: option.splits)
        qed
      qed
    qed
  qed
qed


lemma init_state_shapes:
  "same_shape (state_exp_avg (init_state c t)) t"
  "case state_rms (init_state c t) of None \<Rightarrow> True | Some r \<Rightarrow> one_entry r"
  "same_shape (state_exp_avg (init_state_rms c t)) t"
  "case state_rms (init_state_rms c t) of None \<Rightarrow> True | Some r \<Rightarrow> one_entry r"
  by (simp_all add: init_state_def init_state_rms_def same_shape_def one_entry_def zeros_like_def
      zeros1_def)

lemma ensure_state_shapes:
  assumes i1: "\<And>c t. same_shape (state_exp_avg (init c t)) t"
    and i2: "\<And>c t. state_hessian (init c t) = Some (zeros_like t)"
    and i3: "\<And>c t. case state_rms (init c t) of None \<Rightarrow> True | Some r \<Rightarrow> one_entry r"
    and ok: "shapes_ok p"
  shows "shapes_ok (p\<lparr>p_state := Some (ensure_state init c p)\<rparr>)"
proof (cases "p_state p")
  case None
  with ok i1 [of c "p_data p"] i2 [of c "p_data p"] i3 [of c "p_data p"] show ?thesis
    by (simp add: shapes_ok_def buffers_ok_def grad_ok_def ensure_state_def
        backfill_hessian_def same_shape_def zeros_like_def split: option.splits grad.splits)
next
  case (Some st)
  with ok show ?thesis
    by (auto simp: shapes_ok_def buffers_ok_def grad_ok_def ensure_state_def
        backfill_hessian_def same_shape_def zeros_like_def split: option.splits grad.splits)
qed

lemma ensure_state_hessian_shape:
  assumes i2: "\<And>c t. state_hessian (init c t) = Some (zeros_like t)"
    and ok: "shapes_ok p"
  shows "same_shape (hessian_buffer (p_data p) (ensure_state init c p)) (p_data p)"
  using ok i2 [of c "p_data p"]
  by (auto simp: shapes_ok_def buffers_ok_def ensure_state_def hessian_buffer_def
      backfill_hessian_def same_shape_def zeros_like_def split: option.splits)

lemma set_hessian_shapes:
  assumes "shapes_ok (p\<lparr>p_state := Some st\<rparr>)" and "same_shape h (p_data p)"
  shows "shapes_ok (p\<lparr>p_state := Some (st\<lparr>state_hessian := Some h\<rparr>)\<rparr>)"
  using assms
  by (simp add: shapes_ok_def buffers_ok_def grad_ok_def split: option.splits grad.splits)

lemma update_hessian_param_shapes:
  assumes i1: "\<And>c t. same_shape (state_exp_avg (init c t)) t"
    and i2: "\<And>c t. state_hessian (init c t) = Some (zeros_like t)"
    and i3: "\<And>c t. case state_rms (init c t) of None \<Rightarrow> True | Some r \<Rightarrow> one_entry r"
    and ok: "shapes_ok p"
  shows "shapes_ok (result_state (update_hessian_param init c b2 p))"
proof (cases "p_grad p")
  case None
  with ok show ?thesis by (simp add: update_hessian_param_def)
next
  case (Some gr)
  let ?st = "ensure_state init c p"
  let ?h = "imul (hessian_buffer (p_data p) ?st) b2"
  have st: "shapes_ok (p\<lparr>p_state := Some ?st\<rparr>)"
    by (rule ensure_state_shapes [OF i1 i2 i3 ok])
  have h: "same_shape ?h (p_data p)"
    using ensure_state_hessian_shape [of init p c, OF i2 ok]
    by (simp add: same_shape_def imul_def)
  show ?thesis
  proof (cases gr)
    case (Sparse gt)
    with Some set_hessian_shapes [OF st h] show ?thesis
      by (simp add: update_hessian_param_def Let_def)
  next
    case (Dense gt)
    with Some ok have "same_shape gt (p_data p)"
      by (simp add: shapes_ok_def grad_ok_def)
    with h have "same_shape (iaddcmul ?h (vals gt) (vals gt) (1 - b2)) (p_data p)"
      by (simp add: same_shape_def iaddcmul_def)
    from set_hessian_shapes [OF st this] Some Dense show ?thesis
      by (simp add: update_hessian_param_def Let_def)
  qed
qed

lemma collect_param_shapes:
  "shapes_ok p \<Longrightarrow> shapes_ok (fst (result_state (collect_param c s p)))"
  using ensure_state_shapes [where init = init_state and p = p,
      OF init_state_shapes(1) init_state_hessian init_state_shapes(2)]
  by (simp add: collect_param_def Let_def split: option.splits grad.splits)

lemma collect_param_rms_shapes:
  "shapes_ok p \<Longrightarrow> shapes_ok (fst (result_state (collect_param_rms c s p)))"
  using ensure_state_shapes [where init = init_state_rms and p = p,
      OF init_state_shapes(3) init_state_rms_hessian init_state_shapes(4)]
  by (simp add: collect_param_rms_def Let_def split: option.splits grad.splits)

lemma dispatch_shapes:
  assumes "list_all shapes_ok ps"
  shows "list_all shapes_ok (result_state (sophiag ps b b1 b2 rho lr wd mx cap))"
    and "list_all shapes_ok (result_state (sophiag_rms ps b b1 b2 rho lr wd mx cap))"
    and "list_all shapes_ok (result_state (sophiag_og ps b b1 b2 rho lr wd mx cap))"
    and "list_all shapes_ok (result_state (sophiag_rmsd ps b b1 b2 rho lr wd mx cap))"
  unfolding sophiag_def sophiag_rms_def sophiag_og_def sophiag_rmsd_def Let_def
    single_tensor_sophiag_def single_tensor_sophiag_rms_def single_tensor_sophiag_og_def
proof -
  show "list_all shapes_ok (result_state (for_each
      (on_param (single_tensor_sophiag_iter b1 b2 rho lr wd mx cap b)) ps))"
    by (rule for_each_pres [OF _ assms], rule on_param_shapes, erule (3) base_iter_shape)
  show rms: "list_all shapes_ok (result_state (for_each
      (on_param_rms (single_tensor_sophiag_rms_iter b1 b2 rho lr wd mx cap b)) ps))"
    by (rule for_each_pres [OF _ assms], rule on_param_rms_shapes, erule (4) rms_iter_shape)
  show "list_all shapes_ok (result_state (for_each
      (on_param_rms (single_tensor_sophiag_og_iter b1 b2 rho lr wd mx cap b)) ps))"
    by (rule for_each_pres [OF _ assms], rule on_param_rms_shapes, erule (4) og_iter_shape)
  show "list_all shapes_ok (result_state (for_each
      (on_param_rms (single_tensor_sophiag_rms_iter b1 b2 rho lr wd mx cap b)) ps))"
    by (rule rms)
qed

lemma all_params_as_groups:
  "all_params P opt =
     list_all (\<lambda>g. (\<lambda>b. True) (snd (group_betas g)) \<and> list_all P (group_params g))
       (param_groups opt)"
  by (simp add: all_params_def)

lemma step_with_shapes:
  assumes "\<And>c s p. shapes_ok p \<Longrightarrow> shapes_ok (fst (result_state (collect c s p)))"
    and "\<And>ps b b1 b2 rho lr wd mx cap. list_all shapes_ok ps \<Longrightarrow>
      list_all shapes_ok (result_state (dispatch ps b b1 b2 rho lr wd mx cap))"
    and "all_params shapes_ok opt"
  shows "all_params shapes_ok (result_state (step_with collect dispatch opt bs))"
  using assms(3) unfolding all_params_as_groups
  by (intro step_with_pres [where Q = "\<lambda>b. True" and P = shapes_ok
        and c = "defaults_capturable opt"] assms(1,2) refl)

lemma update_hessian_with_shapes:
  assumes "\<And>c t. same_shape (state_exp_avg (init c t)) t"
    and "\<And>c t. state_hessian (init c t) = Some (zeros_like t)"
    and "\<And>c t. case state_rms (init c t) of None \<Rightarrow> True | Some r \<Rightarrow> one_entry r"
    and "all_params shapes_ok opt"
  shows "all_params shapes_ok (result_state (update_hessian_with init opt))"
  using assms(4) unfolding all_params_as_groups
  by (intro update_hessian_with_pres [where Q = "\<lambda>b. True" and P = shapes_ok
        and c = "defaults_capturable opt"] update_hessian_param_shapes assms(1,2,3) refl)

lemma step_of_shapes:
  assumes "all_params shapes_ok opt"
  shows "all_params shapes_ok (result_state (step_of v opt bs))"
proof (cases v)
  case Base
  from assms show ?thesis
    unfolding Base step_of.simps SophiaG_step_def
    by (intro step_with_shapes collect_param_shapes dispatch_shapes)
next
  case RMS
  from assms show ?thesis
    unfolding RMS step_of.simps SophiaG_RMS_step_def
    by (intro step_with_shapes collect_param_rms_shapes dispatch_shapes)
next
  case OG
  from assms show ?thesis
    unfolding OG step_of.simps SophiaG_OG_step_def
    by (intro step_with_shapes collect_param_rms_shapes dispatch_shapes)
next
  case RMSD
  from assms show ?thesis
    unfolding RMSD step_of.simps SophiaG_RMSD_step_def
    by (intro step_with_shapes collect_param_rms_shapes dispatch_shapes)
qed

lemma update_hessian_of_shapes:
  assumes "all_params shapes_ok opt"
  shows "all_params shapes_ok (result_state (update_hessian_of v opt))"
  using assms
  by (cases v)
    (simp_all add: SophiaG_update_hessian_def SophiaG_RMS_update_hessian_def
      SophiaG_OG_update_hessian_def SophiaG_RMSD_update_hessian_def
      update_hessian_with_shapes init_state_shapes init_state_hessian init_state_rms_hessian)


lemma zero_filled_zeros_like: "zero_filled (zeros_like t)"
  by (simp add: zero_filled_def zeros_like_def list_all_length)

lemma same_shape_zeros_like: "same_shape (zeros_like t) t"
  by (simp add: same_shape_def zeros_like_def)

lemma zeros1_one_entry: "one_entry (zeros1 d)" "zero_filled (zeros1 d)"
  by (simp_all add: one_entry_def zero_filled_def zeros1_def)
text \<open>
  C8, as amended. At state creation the momentum and hessian buffers are zero-filled
  and have the shape of the parameter; the \<open>rms\<close> buffer of the three classes that have
  one is zero-filled and has the shape \<open>(1,)\<close>, whatever the parameter; a missing
  hessian buffer is filled in the same way. If in every parameter the buffers have
  these shapes and the gradient has the shape of the parameter, then they have these
  shapes after a \<open>step\<close> and after an \<open>update_hessian\<close> of any of the four classes,
  returning or raising.
\<close>

theorem buffers_keep_shape:
  "(same_shape (state_exp_avg (init_state c t)) t \<and>
    zero_filled (state_exp_avg (init_state c t)) \<and>
    (case state_hessian (init_state c t) of
       None \<Rightarrow> False | Some h \<Rightarrow> same_shape h t \<and> zero_filled h) \<and>
    state_rms (init_state c t) = None) \<and>
   (same_shape (state_exp_avg (init_state_rms c t)) t \<and>
    zero_filled (state_exp_avg (init_state_rms c t)) \<and>
    (case state_hessian (init_state_rms c t) of
       None \<Rightarrow> False | Some h \<Rightarrow> same_shape h t \<and> zero_filled h) \<and>
    (case state_rms (init_state_rms c t) of
       None \<Rightarrow> False | Some r \<Rightarrow> one_entry r \<and> zero_filled r)) \<and>
   (state_hessian st = None \<longrightarrow>
    (case state_hessian (backfill_hessian t st) of
       None \<Rightarrow> False | Some h \<Rightarrow> same_shape h t \<and> zero_filled h)) \<and>
   (all_params shapes_ok opt \<longrightarrow>
    all_params shapes_ok (result_state (step_of v opt bs)) \<and>
    all_params shapes_ok (result_state (update_hessian_of v opt)))"
proof (intro conjI impI)
  show "all_params shapes_ok (result_state (step_of v opt bs))" if "all_params shapes_ok opt"
    by (rule step_of_shapes [OF that])
  show "all_params shapes_ok (result_state (update_hessian_of v opt))"
    if "all_params shapes_ok opt"
    by (rule update_hessian_of_shapes [OF that])
qed (simp_all add: init_state_def init_state_rms_def backfill_hessian_def
    zero_filled_zeros_like same_shape_zeros_like zeros1_one_entry)

theorem buffers_keep_shape_witness:
  "all_params shapes_ok (two_scenario None) \<and>
   all_params shapes_ok (result_state (step_of RMS (two_scenario None) 5120)) \<and>
   all_params shapes_ok (result_state (update_hessian_of RMS (two_scenario None))) \<and>
   state_hessian (scenario_state 0 0 0\<lparr>state_hessian := None\<rparr>) = None \<and>
   (case state_hessian
           (backfill_hessian two_entries (scenario_state 0 0 0\<lparr>state_hessian := None\<rparr>)) of
      None \<Rightarrow> False | Some h \<Rightarrow> same_shape h two_entries \<and> zero_filled h)"
proof -
  have 1: "all_params shapes_ok (two_scenario None)"
    by (simp add: all_params_def shapes_ok_def buffers_ok_def grad_ok_def same_shape_def
        two_scenario_def make_optimizer_def)
  have 2: "state_hessian (scenario_state 0 0 0\<lparr>state_hessian := None\<rparr>) = None"
    by simp
  from 1 2
    buffers_keep_shape [where opt = "two_scenario None" and v = RMS and bs = 5120
      and t = two_entries and st = "scenario_state 0 0 0\<lparr>state_hessian := None\<rparr>"]
  show ?thesis by blast
qed
text \<open>
  C8 as it is stated fails for the \<open>rms\<close> buffer: for a parameter of shape \<open>(2,)\<close>,
  \<open>SophiaG_RMS.update_hessian\<close> creates it with the shape \<open>(1,)\<close>.
\<close>

theorem rms_buffer_shape_counterexample:
  "SophiaG_RMS_update_hessian (two_scenario None) =
     Ok (two_scenario (Some
       \<lparr>state_step = zeros1 False, state_exp_avg = zeros_like two_entries,
        state_hessian = Some (two_entries\<lparr>vals := [1 / 100, 4 / 100]\<rparr>),
        state_rms = Some (zeros1 False)\<rparr>)) \<and>
   shape (zeros1 False) \<noteq> shape two_entries \<and>
   length (vals (zeros1 False)) \<noteq> length (vals two_entries)"
  by (simp add: SophiaG_RMS_update_hessian_def two_scenario_def two_entries_def
      make_optimizer_def update_hessian_defs state_defs tensor_defs)

end
